theory Spec2Isabelle
  imports Complex_Main
begin

section \<open>Data model of the renderer\<close>

text \<open>
  The renderer keeps its whole state in module-level variables. They become the fields of
  one record that every operation takes and returns. JavaScript numbers are modelled as
  reals (no rounding, no NaN, no infinities). The Web Audio objects are collaborators:
  the model keeps of them what the renderer can observe or change, namely the connections
  between nodes, which sources are producing sound, the parameters of the gain and
  filter nodes and the audio clock.
\<close>

datatype node = Mic nat | Buf nat | Highpass | Lowpass | GainOut | Analyser | Destination

datatype mode = ModeNone | ModeRealtime | ModeFile

text \<open>The texts written to the status line, by kind.\<close>

datatype status =
    StVolume real | StVolumeReset | StRealtime | StStartError | StStopped
  | StBandSelected real real | StBandCleared | StPeaksReset
  | StLoading | StFileLoaded | StLoadError
  | StPlaying | StPlaybackError | StPaused | StFileStopped

record state =
  audioCtx :: bool
  mediaStream :: "nat option"
  realtimeSourceNode :: "node option"
  fileSourceNode :: "node option"
  currentSourceNode :: "node option"
  inputMode :: mode
  isPlaying :: bool
  isRepeating :: bool
  fileDuration :: real
  fileBuffer :: bool
  isRealtimeActive :: bool
  gainOut :: "real option"
  highpass :: "real option"
  lowpass :: "real option"
  visualAnalyser :: bool
  outputEnabled :: bool
  volumeLevel :: real
  peakBins :: "real list option"
  dragging :: bool
  dragStartX :: "real option"
  dragEndX :: "real option"
  selectedBandHz :: "(real \<times> real) option"
  selectedBandPixels :: "(real \<times> real) option"
  currentTimelineProgress :: real
  timeUpdateInterval :: bool
  playStartTime :: real
  pausedTime :: real
  statusEl :: status
  currentTimeText :: real
  btnPlayDisabled :: bool
  btnPauseDisabled :: bool
  btnStopDisabled :: bool
  audioTime :: real
  edges :: "(node \<times> node) list"
  live :: "node list"
  looping :: "node list"
  startedAt :: "(node \<times> real) list"
  onended :: "node list"
  nextId :: nat
  timers :: nat
  pendingPlay :: nat
  timelineSlider :: "real option"
  stopThrows :: "node list"
  disconnectThrows :: "node list"

text \<open>
  Fields up to \<open>btnStopDisabled\<close> are the renderer's own variables and the page elements
  it writes: \<open>gainOut\<close>, \<open>highpass\<close> and \<open>lowpass\<close> hold the node's parameter
  (\<open>gain.value\<close>, \<open>frequency.value\<close>) when the node exists, \<open>currentTimeText\<close> is the
  number of seconds shown by the time label. The remaining fields are the platform:
  the audio clock \<open>audioCtx.currentTime\<close>, the connections of the audio graph, the
  sources that are producing sound (a microphone source whose tracks run, a buffer source
  between start and stop), the buffer sources whose \<open>loop\<close> flag is set, the offset each
  buffer source was started at, the buffer sources carrying the \<open>onended\<close> handler, the
  next fresh node number, the number of running interval timers, the number of scheduled
  \<open>setTimeout\<close> calls of \<open>playFile\<close>, the value of the page's \<open>timelineSlider\<close> element
  if the page has one (the script names it without declaring it), and the nodes whose
  \<open>stop()\<close> or \<open>disconnect()\<close> raises.
\<close>

text \<open>
  A JavaScript call either returns or throws; in both cases the assignments made so far
  stay. \<open>andThen\<close> is sequencing, \<open>catch\<close> a \<open>try\<close> block with its handler.
\<close>

datatype completion = Returned state | Threw state

fun stateOf :: "completion \<Rightarrow> state" where
  "stateOf (Returned s) = s"
| "stateOf (Threw s) = s"

fun threw :: "completion \<Rightarrow> bool" where
  "threw (Returned s) = False"
| "threw (Threw s) = True"

fun andThen :: "completion \<Rightarrow> (state \<Rightarrow> completion) \<Rightarrow> completion" where
  "andThen (Returned s) f = f s"
| "andThen (Threw s) f = Threw s"

fun catch :: "completion \<Rightarrow> (state \<Rightarrow> completion) \<Rightarrow> completion" where
  "catch (Returned s) h = Returned s"
| "catch (Threw s) h = h s"

section \<open>The frequency axis\<close>

definition values_hz :: "real list" where
  "values_hz = [0, 50, 100, 200, 300, 400, 500, 600, 700, 800, 900, 1000, 2000, 5000, 10000]"

definition logFreqs :: "real list" where
  "logFreqs = map (\<lambda>f. if f = 0 then 0 else log 10 f) values_hz"

text \<open>
  The loop of \<open>hzToCanvasX\<close>, from index \<open>i\<close> with \<open>k\<close> iterations left; it returns at the
  first segment that holds \<open>logHz\<close> and falls through to \<open>return 0\<close>.
\<close>

fun hzScan :: "nat \<Rightarrow> nat \<Rightarrow> real \<Rightarrow> real \<Rightarrow> real" where
  "hzScan 0 i logHz width = 0"
| "hzScan (Suc k) i logHz width =
     (let f1 = logFreqs ! i; f2 = logFreqs ! (i + 1) in
      if logHz \<ge> f1 \<and> logHz \<le> f2 then
        (let ratio = (logHz - f1) / (f2 - f1);
             x1 = (real i / real (length logFreqs - 1)) * width;
             x2 = (real (i + 1) / real (length logFreqs - 1)) * width
         in x1 + ratio * (x2 - x1))
      else hzScan k (i + 1) logHz width)"

definition hzToCanvasX :: "real \<Rightarrow> real \<Rightarrow> real" where
  "hzToCanvasX hz width =
     (if hz \<le> values_hz ! 0 then 0
      else if hz \<ge> values_hz ! (length values_hz - 1) then width
      else hzScan (length logFreqs - 1) 0 (if hz = 0 then 0 else log 10 hz) width)"

fun xScan :: "nat \<Rightarrow> nat \<Rightarrow> real \<Rightarrow> real \<Rightarrow> real" where
  "xScan 0 i x width = values_hz ! 0"
| "xScan (Suc k) i x width =
     (let x1 = (real i / real (length logFreqs - 1)) * width;
          x2 = (real (i + 1) / real (length logFreqs - 1)) * width in
      if x \<ge> x1 \<and> x \<le> x2 then
        (let ratio = (x - x1) / (x2 - x1);
             logF1 = logFreqs ! i;
             logF2 = logFreqs ! (i + 1);
             logHz = logF1 + ratio * (logF2 - logF1)
         in if logHz = 0 then 0 else 10 powr logHz)
      else xScan k (i + 1) x width)"

definition canvasXToHz :: "real \<Rightarrow> real \<Rightarrow> real" where
  "canvasXToHz x width =
     (if x \<le> 0 then values_hz ! 0
      else if x \<ge> width then values_hz ! (length values_hz - 1)
      else xScan (length logFreqs - 1) 0 x width)"

section \<open>Peak hold\<close>

text \<open>The fill loop \<open>for (i = 0; i < n; i++) a[i] = -120.0\<close>, with \<open>k\<close> iterations left.\<close>

fun fillFloor :: "nat \<Rightarrow> nat \<Rightarrow> real list \<Rightarrow> real list" where
  "fillFloor 0 i p = p"
| "fillFloor (Suc k) i p = fillFloor k (i + 1) (p[i := -120])"

definition newPeakBins :: "nat \<Rightarrow> real list" where
  "newPeakBins n = fillFloor n 0 (replicate n 0)"

text \<open>
  The update loop of \<open>drawSpectrum\<close>. Reading a typed array beyond its length gives
  \<open>undefined\<close>, which is when the loop allocates the array again.
\<close>

fun peakLoop :: "nat \<Rightarrow> nat \<Rightarrow> real list \<Rightarrow> real list option \<Rightarrow> real list option" where
  "peakLoop 0 i fd pb = pb"
| "peakLoop (Suc k) i fd pb =
     (let cur = fd ! i;
          p = (case pb of
                 None \<Rightarrow> newPeakBins (length fd)
               | Some q \<Rightarrow> if i < length q then q else newPeakBins (length fd))
      in peakLoop k (i + 1) fd (Some (p[i := max cur (p ! i)])))"

text \<open>
  \<open>drawSpectrum\<close>, as far as the peaks go. The frame \<open>freqData\<close> is what the analyser
  wrote into a \<open>Float32Array(n)\<close>, so the bin count \<open>n\<close> is its length.
\<close>

definition drawSpectrum :: "real list \<Rightarrow> state \<Rightarrow> state" where
  "drawSpectrum freqData s =
     (if visualAnalyser s then
        (let n = length freqData;
             pb = (case peakBins s of
                     None \<Rightarrow> Some (newPeakBins n)
                   | Some q \<Rightarrow> if length q = n then Some q else Some (newPeakBins n))
         in s\<lparr>peakBins := peakLoop n 0 freqData pb\<rparr>)
      else s)"

definition drawLoop :: "real list \<Rightarrow> state \<Rightarrow> state" where
  "drawLoop freqData s = (if audioCtx s \<and> visualAnalyser s then drawSpectrum freqData s else s)"

definition resetMaxPeaks :: "state \<Rightarrow> state" where
  "resetMaxPeaks s =
     (case peakBins s of
        None \<Rightarrow> s
      | Some p \<Rightarrow> s\<lparr>peakBins := Some (fillFloor (length p) 0 p)\<rparr>)\<lparr>statusEl := StPeaksReset\<rparr>"

section \<open>The audio graph\<close>

text \<open>
  \<open>a.connect(b)\<close> adds a connection (once), \<open>a.disconnect()\<close> removes every connection
  leaving \<open>a\<close>, \<open>stop()\<close> silences a source, \<open>start(0, offset)\<close> starts a buffer source and
  raises on a negative offset.
\<close>

definition addEdge :: "node \<times> node \<Rightarrow> (node \<times> node) list \<Rightarrow> (node \<times> node) list" where
  "addEdge e es = (if e \<in> set es then es else es @ [e])"

definition connect :: "node \<Rightarrow> node \<Rightarrow> state \<Rightarrow> state" where
  "connect a b s = s\<lparr>edges := addEdge (a, b) (edges s)\<rparr>"

definition disconnect :: "node \<Rightarrow> state \<Rightarrow> completion" where
  "disconnect a s =
     (if a \<in> set (disconnectThrows s) then Threw s
      else Returned (s\<lparr>edges := filter (\<lambda>e. fst e \<noteq> a) (edges s)\<rparr>))"

definition stopNode :: "node \<Rightarrow> state \<Rightarrow> completion" where
  "stopNode a s =
     (if a \<in> set (stopThrows s) then Threw s
      else Returned (s\<lparr>live := removeAll a (live s)\<rparr>))"

definition startNode :: "node \<Rightarrow> real \<Rightarrow> state \<Rightarrow> completion" where
  "startNode a offset s =
     (if offset < 0 then Threw s
      else Returned (s\<lparr>live := a # live s, startedAt := (a, offset) # startedAt s\<rparr>))"

text \<open>\<open>try { n.disconnect(); n.stop(); } catch (e) { }\<close>\<close>

definition tryTeardown :: "node \<Rightarrow> state \<Rightarrow> state" where
  "tryTeardown n s = stateOf (andThen (disconnect n s) (stopNode n))"

text \<open>The expression \<open>outputEnabled ? volumeLevel : 0.0\<close>.\<close>

definition outputGain :: "state \<Rightarrow> real" where
  "outputGain s = (if outputEnabled s then volumeLevel s else 0)"

definition initializeAudioNodes :: "state \<Rightarrow> state" where
  "initializeAudioNodes s =
     (let s1 = (if gainOut s = None then s\<lparr>gainOut := Some (outputGain s)\<rparr> else s);
          s2 = (if highpass s1 = None then s1\<lparr>highpass := Some 20\<rparr> else s1);
          s3 = (if lowpass s2 = None then s2\<lparr>lowpass := Some 20000\<rparr> else s2)
      in s3\<lparr>visualAnalyser := True\<rparr>)"

text \<open>A \<open>try\<close> block of \<open>disconnect()\<close> calls whose handler is empty: the first call that
  raises ends the block.\<close>

fun disconnectEach :: "node list \<Rightarrow> state \<Rightarrow> state" where
  "disconnectEach [] s = s"
| "disconnectEach (n # ns) s =
     (case disconnect n s of Threw s' \<Rightarrow> s' | Returned s' \<Rightarrow> disconnectEach ns s')"

definition connectAudioPipeline :: "state \<Rightarrow> completion" where
  "connectAudioPipeline s =
     (case currentSourceNode s of
        None \<Rightarrow> Returned s
      | Some src \<Rightarrow>
          if gainOut s = None \<or> \<not> visualAnalyser s then Returned s
          else
            (let s1 = disconnectEach
                        ((if highpass s = None then [] else [Highpass]) @
                         (if lowpass s = None then [] else [Lowpass]) @
                         [GainOut, Analyser, src]) s
             in andThen
                  (case selectedBandHz s1 of
                     Some band \<Rightarrow>
                       (case highpass s1 of
                          None \<Rightarrow> Threw s1
                        | Some _ \<Rightarrow>
                            (let hp = max 10 (fst band);
                                 s2 = s1\<lparr>highpass := Some hp\<rparr>
                             in case lowpass s2 of
                                  None \<Rightarrow> Threw s2
                                | Some _ \<Rightarrow>
                                    Returned
                                      (connect Lowpass GainOut
                                        (connect Highpass Lowpass
                                          (connect src Highpass
                                            (s2\<lparr>lowpass := Some (max (hp + 10) (snd band))\<rparr>))))))
                   | None \<Rightarrow> Returned (connect src GainOut s1))
                  (\<lambda>s3. Returned
                     (connect src Analyser
                       (connect GainOut Destination (s3\<lparr>gainOut := Some (outputGain s3)\<rparr>))))))"

definition connectGraph :: "state \<Rightarrow> completion" where
  "connectGraph s = connectAudioPipeline s"

section \<open>Sources and modes\<close>

definition stopCurrentInput :: "state \<Rightarrow> completion" where
  "stopCurrentInput s =
     andThen
       (if inputMode s = ModeRealtime \<and> realtimeSourceNode s \<noteq> None then
          Returned
            ((case mediaStream s of
                None \<Rightarrow> s
              | Some k \<Rightarrow> s\<lparr>live := removeAll (Mic k) (live s)\<rparr>)\<lparr>realtimeSourceNode := None\<rparr>)
        else
          (case fileSourceNode s of
             None \<Rightarrow> Returned s
           | Some n \<Rightarrow>
               if inputMode s = ModeFile then
                 andThen (andThen (disconnect n s) (stopNode n))
                   (\<lambda>s1. Returned (s1\<lparr>fileSourceNode := None, isPlaying := False\<rparr>))
               else Returned s))
       (\<lambda>s2. Returned (s2\<lparr>currentSourceNode := None, inputMode := ModeNone\<rparr>))"

definition stopAudio :: "state \<Rightarrow> completion" where
  "stopAudio s =
     andThen (if inputMode s = ModeRealtime then stopCurrentInput s else Returned s)
       (\<lambda>s1. Returned (s1\<lparr>isRealtimeActive := False, statusEl := StStopped\<rparr>))"

definition stopTimeUpdate :: "state \<Rightarrow> state" where
  "stopTimeUpdate s =
     (if timeUpdateInterval s then s\<lparr>timers := timers s - 1, timeUpdateInterval := False\<rparr> else s)"

definition switchToRealtimeMode :: "state \<Rightarrow> completion" where
  "switchToRealtimeMode s =
     (let s1 = (if isPlaying s \<and> inputMode s = ModeFile then
                  stopTimeUpdate
                    ((case fileSourceNode s of
                        None \<Rightarrow> s
                      | Some n \<Rightarrow> (tryTeardown n s)\<lparr>fileSourceNode := None\<rparr>)\<lparr>isPlaying := False\<rparr>)
                else s)
      in andThen
           (if inputMode s1 = ModeRealtime then Returned s1
            else andThen (stopCurrentInput s1)
                   (\<lambda>s2. Returned (s2\<lparr>inputMode := ModeRealtime,
                                        currentSourceNode := realtimeSourceNode s2\<rparr>)))
           (\<lambda>s3. Returned
              (case gainOut s3 of None \<Rightarrow> s3 | Some _ \<Rightarrow> s3\<lparr>gainOut := Some (outputGain s3)\<rparr>)))"

definition switchToFileMode :: "state \<Rightarrow> completion" where
  "switchToFileMode s =
     andThen
       (if isRealtimeActive s \<and> inputMode s = ModeRealtime then stopAudio s else Returned s)
       (\<lambda>s1.
          if fileBuffer s1 then
            andThen
              (if inputMode s1 = ModeFile then Returned s1
               else andThen (stopCurrentInput s1)
                      (\<lambda>s2. Returned (s2\<lparr>inputMode := ModeFile,
                                           currentSourceNode := fileSourceNode s2\<rparr>)))
              (\<lambda>s3.
                 (let s4 = s3\<lparr>btnPlayDisabled := False, btnPauseDisabled := True,
                              btnStopDisabled := True\<rparr>
                  in Returned
                       (case gainOut s4 of
                          None \<Rightarrow> s4
                        | Some _ \<Rightarrow> s4\<lparr>gainOut := Some (outputGain s4)\<rparr>)))
          else
            Returned (s1\<lparr>btnPlayDisabled := True, btnPauseDisabled := True,
                          btnStopDisabled := True\<rparr>))"

text \<open>
  \<open>startAudio\<close>; \<open>granted\<close> says whether \<open>getUserMedia\<close> resolves. The stream it gives
  and the source node made from it carry the same fresh number. No other event runs
  while the function waits.
\<close>

definition startAudio :: "bool \<Rightarrow> state \<Rightarrow> completion" where
  "startAudio granted s =
     catch
       (andThen (stopCurrentInput s)
          (\<lambda>s1.
             if granted then
               (let k = nextId s1;
                    s2 = s1\<lparr>mediaStream := Some k, nextId := Suc k, live := Mic k # live s1\<rparr>;
                    s3 = initializeAudioNodes (s2\<lparr>audioCtx := True\<rparr>);
                    s4 = s3\<lparr>realtimeSourceNode := Some (Mic k)\<rparr>;
                    s5 = s4\<lparr>currentSourceNode := realtimeSourceNode s4, inputMode := ModeRealtime\<rparr>
                in andThen (connectAudioPipeline s5)
                     (\<lambda>s6. andThen (switchToRealtimeMode s6)
                        (\<lambda>s7. Returned (s7\<lparr>isRealtimeActive := True, statusEl := StRealtime\<rparr>))))
             else Threw s1))
       (\<lambda>s'. stopCurrentInput (s'\<lparr>statusEl := StStartError\<rparr>))"

definition updateCurrentVolume :: "state \<Rightarrow> state" where
  "updateCurrentVolume s =
     (if gainOut s \<noteq> None \<and> currentSourceNode s \<noteq> None
      then s\<lparr>gainOut := Some (outputGain s)\<rparr> else s)"

definition toggleOutput :: "state \<Rightarrow> state" where
  "toggleOutput s = updateCurrentVolume (s\<lparr>outputEnabled := \<not> outputEnabled s\<rparr>)"

definition updateVolume :: "real \<Rightarrow> state \<Rightarrow> state" where
  "updateVolume volumePercent s =
     (updateCurrentVolume (s\<lparr>volumeLevel := volumePercent / 100\<rparr>))\<lparr>statusEl := StVolume volumePercent\<rparr>"

section \<open>File transport\<close>

text \<open>
  \<open>drawTimelineGauge\<close> stores the progress it draws (the page has the gauge canvas: the
  script attaches a listener to it unguarded). \<open>elapsed / fileDuration\<close> is the real
  quotient; the properties below that depend on it assume a positive duration. The audio
  context is never closed, so \<open>playFile\<close> always calls \<open>stop()\<close> on the node it
  replaces.
\<close>

definition drawTimelineGauge :: "real \<Rightarrow> state \<Rightarrow> state" where
  "drawTimelineGauge progressPercent s = s\<lparr>currentTimelineProgress := progressPercent\<rparr>"

definition startTimeUpdate :: "state \<Rightarrow> completion" where
  "startTimeUpdate s =
     (let s1 = s\<lparr>playStartTime := audioTime s\<rparr>
      in case timelineSlider s1 of
           None \<Rightarrow> Threw s1
         | Some v \<Rightarrow>
             Returned (s1\<lparr>pausedTime := (v / 100) * fileDuration s1,
                           timeUpdateInterval := True, timers := Suc (timers s1)\<rparr>))"

definition playFile :: "state \<Rightarrow> state" where
  "playFile s =
     (if fileBuffer s \<and> audioCtx s then
        stateOf
          (catch
             (let s1 = (case fileSourceNode s of
                          None \<Rightarrow> s
                        | Some old \<Rightarrow> (tryTeardown old s)\<lparr>fileSourceNode := None\<rparr>);
                  n = Buf (nextId s1);
                  s2 = s1\<lparr>nextId := Suc (nextId s1), fileSourceNode := Some n,
                           looping := (if isRepeating s1 then n # looping s1 else looping s1)\<rparr>;
                  s3 = s2\<lparr>currentSourceNode := fileSourceNode s2\<rparr>
              in andThen (connectAudioPipeline s3)
                   (\<lambda>s4. andThen
                      (startNode n ((currentTimelineProgress s4 / 100) * fileDuration s4) s4)
                      (\<lambda>s5. andThen
                         (startTimeUpdate
                            (s5\<lparr>isPlaying := True, btnPlayDisabled := True,
                                 btnPauseDisabled := False, btnStopDisabled := False\<rparr>))
                         (\<lambda>s6. Returned (s6\<lparr>onended := n # onended s6, statusEl := StPlaying\<rparr>)))))
             (\<lambda>s'. Returned (s'\<lparr>statusEl := StPlaybackError\<rparr>)))
      else s)"

definition pauseFile :: "state \<Rightarrow> state" where
  "pauseFile s =
     (case fileSourceNode s of
        None \<Rightarrow> s
      | Some n \<Rightarrow>
          if isPlaying s then
            (stopTimeUpdate
               ((tryTeardown n s)\<lparr>fileSourceNode := None, isPlaying := False,
                                   btnPlayDisabled := False, btnPauseDisabled := True\<rparr>))
              \<lparr>statusEl := StPaused\<rparr>
          else s)"

definition stopFile :: "state \<Rightarrow> state" where
  "stopFile s =
     (let s1 = (case fileSourceNode s of
                  None \<Rightarrow> s
                | Some n \<Rightarrow> (tryTeardown n s)\<lparr>fileSourceNode := None\<rparr>);
          s2 = s1\<lparr>isPlaying := False, btnPlayDisabled := False, btnPauseDisabled := True,
                   btnStopDisabled := True\<rparr>;
          s3 = (drawTimelineGauge 0 s2)\<lparr>currentTimeText := 0\<rparr>
      in (stopTimeUpdate s3)\<lparr>statusEl := StFileStopped\<rparr>)"

text \<open>The callback of the 100 ms interval timer.\<close>

definition intervalCallback :: "state \<Rightarrow> state" where
  "intervalCallback s =
     (if isPlaying s \<and> audioCtx s then
        (let elapsed = audioTime s - playStartTime s + pausedTime s;
             progress = min (elapsed / fileDuration s) 1 * 100;
             s1 = (drawTimelineGauge progress s)\<lparr>currentTimeText := elapsed\<rparr>
         in if elapsed \<ge> fileDuration s1 \<and> \<not> isRepeating s1 then stopFile s1 else s1)
      else s)"

text \<open>The \<open>onended\<close> handler that \<open>playFile\<close> installs.\<close>

definition onendedHandler :: "state \<Rightarrow> state" where
  "onendedHandler s = (if isRepeating s then s else pauseFile s)"

definition toggleRepeat :: "state \<Rightarrow> state" where
  "toggleRepeat s =
     (let s1 = s\<lparr>isRepeating := \<not> isRepeating s\<rparr>
      in case fileSourceNode s1 of
           None \<Rightarrow> s1
         | Some n \<Rightarrow>
             s1\<lparr>looping := (if isRepeating s1 then n # removeAll n (looping s1)
                             else removeAll n (looping s1))\<rparr>)"

definition seekToPosition :: "real \<Rightarrow> state \<Rightarrow> state" where
  "seekToPosition progressPercent s =
     (if inputMode s = ModeFile \<and> fileBuffer s then
        (let wasPlaying = isPlaying s;
             s1 = (if isPlaying s then pauseFile s else s);
             s2 = drawTimelineGauge progressPercent
                    (s1\<lparr>currentTimeText := (progressPercent / 100) * fileDuration s1\<rparr>)
         in if wasPlaying then s2\<lparr>pendingPlay := Suc (pendingPlay s2)\<rparr> else s2)
      else s)"

text \<open>A click on the timeline gauge; \<open>progress\<close> is \<open>(clickX / rect.width) * 100\<close>.\<close>

definition timelineClick :: "real \<Rightarrow> state \<Rightarrow> state" where
  "timelineClick progress s =
     (if inputMode s = ModeFile \<and> fileDuration s > 0 then
        (let clampedProgress = max 0 (min 100 progress);
             seekTime = (clampedProgress / 100) * fileDuration s
         in seekToPosition clampedProgress
              (drawTimelineGauge clampedProgress (s\<lparr>currentTimeText := seekTime\<rparr>)))
      else s)"

section \<open>Band selection\<close>

definition clearBand :: "state \<Rightarrow> completion" where
  "clearBand s =
     andThen
       (connectGraph (s\<lparr>selectedBandHz := None, selectedBandPixels := None,
                         dragStartX := None, dragEndX := None\<rparr>))
       (\<lambda>s1. Returned (s1\<lparr>statusEl := StBandCleared\<rparr>))"

text \<open>
  The mouse handlers take \<open>mouseX = e.clientX - rect.left\<close> and the width of the canvas
  rectangle. The padding is \<open>{ top: 10, right: 10, bottom: 40, left: 0 }\<close>.
\<close>

definition mousedown :: "real \<Rightarrow> nat \<Rightarrow> real \<Rightarrow> state \<Rightarrow> state" where
  "mousedown mouseX button rectWidth s =
     (let plotX = 0; plotWidth = rectWidth - 0 - 10
      in if mouseX \<ge> plotX \<and> mouseX \<le> plotX + plotWidth then
           (if button = 0 then
              s\<lparr>dragging := True, dragStartX := Some mouseX, dragEndX := Some mouseX\<rparr>
            else if button = 2 then resetMaxPeaks s
            else s)
         else s)"

definition mousemove :: "real \<Rightarrow> real \<Rightarrow> state \<Rightarrow> state" where
  "mousemove mouseX rectWidth s =
     (if dragging s then
        (let plotX = 0; plotWidth = rectWidth - 0 - 10
         in s\<lparr>dragEndX := Some (max plotX (min (plotX + plotWidth) mouseX))\<rparr>)
      else s)"

definition mouseup :: "real \<Rightarrow> state \<Rightarrow> completion" where
  "mouseup rectWidth s =
     (if dragging s then
        (let s0 = s\<lparr>dragging := False\<rparr>
         in andThen
              (case dragStartX s0 of
                 None \<Rightarrow> Returned s0
               | Some a \<Rightarrow>
                   (case dragEndX s0 of
                      None \<Rightarrow> Returned s0
                    | Some b \<Rightarrow>
                        (let plotX = 0; plotWidth = rectWidth - 0 - 10;
                             x1 = min a b; x2 = max a b
                         in if x1 \<ge> plotX \<and> x2 \<le> plotX + plotWidth \<and> x2 - x1 \<ge> 5 then
                              (let s1 = s0\<lparr>selectedBandPixels := Some (x1, x2)\<rparr>;
                                   lo = canvasXToHz (x1 - plotX) plotWidth;
                                   hi = canvasXToHz (x2 - plotX) plotWidth
                               in connectGraph
                                    (s1\<lparr>selectedBandHz := Some (lo, hi),
                                        statusEl := StBandSelected lo hi\<rparr>))
                            else clearBand s0)))
              (\<lambda>s2. Returned (s2\<lparr>dragStartX := None, dragEndX := None\<rparr>)))
      else Returned s)"

section \<open>Events\<close>

text \<open>
  \<open>loadFile\<close> is the \<open>change\<close> handler of the file input once a file is chosen;
  \<open>decoded\<close> is the duration of the buffer \<open>decodeAudioData\<close> gives, or nothing when it
  rejects.
\<close>

definition loadFile :: "real option \<Rightarrow> state \<Rightarrow> state" where
  "loadFile decoded s =
     stateOf
       (catch
          (andThen (stopCurrentInput (s\<lparr>statusEl := StLoading\<rparr>))
             (\<lambda>s1.
                (let s2 = s1\<lparr>audioCtx := True\<rparr>
                 in case decoded of
                      None \<Rightarrow> Threw s2
                    | Some d \<Rightarrow>
                        andThen
                          (switchToFileMode
                             (initializeAudioNodes (s2\<lparr>fileBuffer := True, fileDuration := d\<rparr>)))
                          (\<lambda>s3. Returned
                             ((drawTimelineGauge 0 (s3\<lparr>currentTimeText := 0\<rparr>))
                                \<lparr>btnPlayDisabled := False, btnPauseDisabled := True,
                                 btnStopDisabled := True, statusEl := StFileLoaded\<rparr>)))))
          (\<lambda>s'. Returned (s'\<lparr>statusEl := StLoadError\<rparr>)))"

datatype event =
    StartAudio bool | StopAudio | ModeRealtimeClick | ModeFileClick | LoadFile "real option"
  | PlayClick | PauseClick | StopClick | RepeatClick | TimelineClick real | TimeoutFires
  | TimerTick | SourceEnded node | Advance real
  | OutputClick | VolumeSet real
  | MouseDown real nat real | MouseMove real real | MouseUp real | ClearClick
  | Frame "real list"

text \<open>
  One event handler run to its end. An exception that leaves a handler ends it and keeps
  the assignments made so far.
\<close>

fun fire :: "event \<Rightarrow> state \<Rightarrow> state" where
  "fire (StartAudio granted) s = stateOf (startAudio granted s)"
| "fire StopAudio s = stateOf (stopAudio s)"
| "fire ModeRealtimeClick s = stateOf (switchToRealtimeMode s)"
| "fire ModeFileClick s = stateOf (switchToFileMode s)"
| "fire (LoadFile decoded) s = loadFile decoded s"
| "fire PlayClick s = playFile s"
| "fire PauseClick s = pauseFile s"
| "fire StopClick s = stopFile s"
| "fire RepeatClick s = toggleRepeat s"
| "fire (TimelineClick progress) s = timelineClick progress s"
| "fire TimeoutFires s =
     (if pendingPlay s > 0 then playFile (s\<lparr>pendingPlay := pendingPlay s - 1\<rparr>) else s)"
| "fire TimerTick s = (if timers s > 0 then intervalCallback s else s)"
| "fire (SourceEnded n) s =
     (let s1 = s\<lparr>live := removeAll n (live s)\<rparr>
      in if n \<in> set (onended s1) then onendedHandler s1 else s1)"
| "fire (Advance dt) s = (if dt \<ge> 0 then s\<lparr>audioTime := audioTime s + dt\<rparr> else s)"
| "fire OutputClick s = toggleOutput s"
| "fire (VolumeSet volumePercent) s = updateVolume volumePercent s"
| "fire (MouseDown mouseX button rectWidth) s = mousedown mouseX button rectWidth s"
| "fire (MouseMove mouseX rectWidth) s = mousemove mouseX rectWidth s"
| "fire (MouseUp rectWidth) s = stateOf (mouseup rectWidth s)"
| "fire ClearClick s = stateOf (clearBand s)"
| "fire (Frame freqData) s = drawLoop freqData s"

fun run :: "event list \<Rightarrow> state \<Rightarrow> state" where
  "run [] s = s"
| "run (e # es) s = run es (fire e s)"

text \<open>
  The state once the script has loaded and \<open>init\<close> has called \<open>updateVolume(100)\<close>, on a
  page whose \<open>timelineSlider\<close> is \<open>slider\<close>.
\<close>

definition initState :: "real option \<Rightarrow> state" where
  "initState slider =
     \<lparr>audioCtx = False, mediaStream = None, realtimeSourceNode = None, fileSourceNode = None,
      currentSourceNode = None, inputMode = ModeNone, isPlaying = False, isRepeating = False,
      fileDuration = 0, fileBuffer = False, isRealtimeActive = False,
      gainOut = None, highpass = None, lowpass = None, visualAnalyser = False,
      outputEnabled = False, volumeLevel = 1, peakBins = None,
      dragging = False, dragStartX = None, dragEndX = None,
      selectedBandHz = None, selectedBandPixels = None,
      currentTimelineProgress = 0, timeUpdateInterval = False,
      playStartTime = 0, pausedTime = 0, statusEl = StVolume 100, currentTimeText = 0,
      btnPlayDisabled = True, btnPauseDisabled = True, btnStopDisabled = True,
      audioTime = 0, edges = [], live = [], looping = [], startedAt = [], onended = [],
      nextId = 0, timers = 0, pendingPlay = 0, timelineSlider = slider,
      stopThrows = [], disconnectThrows = []\<rparr>"

section \<open>Observations\<close>

fun isSource :: "node \<Rightarrow> bool" where
  "isSource (Mic k) = True"
| "isSource (Buf k) = True"
| "isSource n = False"

text \<open>The source nodes that have a connection into the graph, in order of connection.\<close>

definition upstreamSources :: "state \<Rightarrow> node list" where
  "upstreamSources s = remdups (filter isSource (map fst (edges s)))"

text \<open>Every connection into the analyser comes from a source node.\<close>

definition analysisClean :: "state \<Rightarrow> bool" where
  "analysisClean s = list_all (\<lambda>e. snd e = Analyser \<longrightarrow> isSource (fst e)) (edges s)"

text \<open>The runs the properties below evaluate.\<close>

abbreviation endSeenByTick :: state where
  "endSeenByTick \<equiv>
     run [LoadFile (Some 10), PlayClick, Advance 10, TimerTick] (initState (Some 0))"

abbreviation endSeenByEvent :: state where
  "endSeenByEvent \<equiv>
     run [LoadFile (Some 10), PlayClick, Advance 9.95, TimerTick, Advance 0.05,
          SourceEnded (Buf 0)] (initState (Some 0))"

abbreviation micThenFile :: state where
  "micThenFile \<equiv>
     run [StartAudio True, ModeFileClick, LoadFile (Some 10), PlayClick] (initState (Some 0))"

abbreviation playingFaulty :: state where
  "playingFaulty \<equiv>
     run [LoadFile (Some 10), PlayClick] ((initState (Some 0))\<lparr>stopThrows := [Buf 0]\<rparr>)"

abbreviation pausedAtThree :: state where
  "pausedAtThree \<equiv>
     run [LoadFile (Some 10), PlayClick, Advance 2.9, TimerTick, Advance 0.1]
       (initState (Some 0))"

abbreviation pausedTwice :: state where
  "pausedTwice \<equiv>
     run [LoadFile (Some 10), PlayClick, Advance 2.9, TimerTick, Advance 0.1, PauseClick,
          PlayClick, Advance 1, TimerTick, PauseClick] (initState (Some 0))"

abbreviation resumedNoSlider :: state where
  "resumedNoSlider \<equiv>
     run [LoadFile (Some 10), PlayClick, Advance 3, PauseClick, PlayClick] (initState None)"

abbreviation orphanToggled :: state where
  "orphanToggled \<equiv>
     run [LoadFile (Some 10), LoadFile None, PlayClick, ModeRealtimeClick, OutputClick]
       (initState (Some 0))"

abbreviation orphanMuted :: state where
  "orphanMuted \<equiv>
     run [LoadFile (Some 10), LoadFile None, OutputClick, PlayClick, ModeRealtimeClick,
          OutputClick, VolumeSet 0] (initState (Some 0))"

abbreviation clearedAfterStop :: state where
  "clearedAfterStop \<equiv>
     run [StartAudio True, MouseDown 100 0 410, MouseMove 200 410, MouseUp 410, StopAudio,
          MouseDown 50 0 410, MouseUp 410] (initState (Some 0))"

abbreviation clearedWhileOrphanPlays :: state where
  "clearedWhileOrphanPlays \<equiv>
     run [LoadFile (Some 10), LoadFile None, PlayClick, MouseDown 100 0 410, MouseMove 200 410,
          MouseUp 410, ModeRealtimeClick, MouseDown 50 0 410, MouseUp 410] (initState (Some 0))"

text \<open>
  The fields the output gain depends on, the condition under which the gain and filter
  nodes all exist once the gain node does, and the gain invariant: with a current source
  set, an existing gain node holds \<open>outputEnabled ? volumeLevel : 0\<close>.
\<close>

definition gainView :: "state \<Rightarrow> real option \<times> bool \<times> bool \<times> bool \<times> node option \<times> bool \<times> real" where
  "gainView s = (gainOut s, visualAnalyser s, highpass s = None, lowpass s = None,
                 currentSourceNode s, outputEnabled s, volumeLevel s)"

definition nodesReady :: "state \<Rightarrow> bool" where
  "nodesReady s = (gainOut s = None \<or> (visualAnalyser s \<and> highpass s \<noteq> None \<and> lowpass s \<noteq> None))"

definition gainInvariant :: "state \<Rightarrow> bool" where
  "gainInvariant s =
     (nodesReady s \<and>
      (currentSourceNode s = None \<or> gainOut s = None \<or> gainOut s = Some (outputGain s)))"

section \<open>Properties of the frequency axis\<close>

lemma length_logFreqs: "length logFreqs = 15"
  by (simp add: logFreqs_def values_hz_def)

lemma logFreqs_step: "i < 14 \<Longrightarrow> logFreqs ! i < logFreqs ! Suc i"
proof -
  assume "i < 14"
  then have "i \<in> {0,1,2,3,4,5,6,7,8,9,10,11,12,13}" by (simp; arith)
  then show ?thesis
    by (auto simp: logFreqs_def values_hz_def)
qed

lemma logFreqs_mono: "i < j \<Longrightarrow> j \<le> 14 \<Longrightarrow> logFreqs ! i < logFreqs ! j"
proof (induction j)
  case 0
  then show ?case by simp
next
  case (Suc j)
  show ?case
  proof (cases "i = j")
    case True
    with Suc.prems show ?thesis using logFreqs_step [of j] by simp
  next
    case False
    with Suc.prems have "logFreqs ! i < logFreqs ! j" using Suc.IH by simp
    moreover have "logFreqs ! j < logFreqs ! Suc j" using Suc.prems logFreqs_step [of j] by simp
    ultimately show ?thesis by simp
  qed
qed

lemma logFreqs_0: "logFreqs ! 0 = 0"
  by (simp add: logFreqs_def values_hz_def)

lemma logFreqs_14: "logFreqs ! 14 = 4"
proof -
  have "log 10 10000 = log 10 (10 ^ 4)" by simp
  also have "\<dots> = 4" by (simp only: log_pow_cancel)
  finally show ?thesis by (simp add: logFreqs_def values_hz_def)
qed

text \<open>Inside segment \<open>j\<close> the loop of \<open>canvasXToHz\<close> returns that segment's interpolation.\<close>

lemma xScan_at:
  "0 < W \<Longrightarrow> i \<le> j \<Longrightarrow> j < 14 \<Longrightarrow> i + k = 14 \<Longrightarrow>
   real j / 14 * W < x \<Longrightarrow> x \<le> real (j + 1) / 14 * W \<Longrightarrow>
   xScan k i x W =
     (let lg = logFreqs ! j + (x - real j / 14 * W) / (real (j + 1) / 14 * W - real j / 14 * W)
                 * (logFreqs ! (j + 1) - logFreqs ! j)
      in if lg = 0 then 0 else 10 powr lg)"
proof (induction k arbitrary: i)
  case 0
  then show ?case by simp
next
  case (Suc k)
  show ?case
  proof (cases "i = j")
    case True
    with Suc.prems show ?thesis by (simp add: length_logFreqs Let_def)
  next
    case False
    with Suc.prems have lt: "i + 1 \<le> j" by simp
    then have "real (i + 1) \<le> real j" by (simp only: of_nat_le_iff)
    with \<open>0 < W\<close> have "real (i + 1) / 14 * W \<le> real j / 14 * W"
      by (simp add: divide_right_mono mult_right_mono)
    with Suc.prems have out: "\<not> x \<le> real (i + 1) / 14 * W" by linarith
    have "xScan (Suc k) i x W = xScan k (i + 1) x W"
      using out by (simp add: length_logFreqs Let_def)
    also have "\<dots> = (let lg = logFreqs ! j + (x - real j / 14 * W) / (real (j + 1) / 14 * W - real j / 14 * W)
                 * (logFreqs ! (j + 1) - logFreqs ! j)
      in if lg = 0 then 0 else 10 powr lg)"
      using Suc.prems lt by (intro Suc.IH) simp_all
    finally show ?thesis .
  qed
qed

lemma hzScan_at:
  "i \<le> j \<Longrightarrow> j < 14 \<Longrightarrow> i + k = 14 \<Longrightarrow>
   logFreqs ! j < lg \<Longrightarrow> lg \<le> logFreqs ! (j + 1) \<Longrightarrow>
   hzScan k i lg W =
     real j / 14 * W + (lg - logFreqs ! j) / (logFreqs ! (j + 1) - logFreqs ! j)
        * (real (j + 1) / 14 * W - real j / 14 * W)"
proof (induction k arbitrary: i)
  case 0
  then show ?case by simp
next
  case (Suc k)
  show ?case
  proof (cases "i = j")
    case True
    with Suc.prems show ?thesis by (simp add: length_logFreqs Let_def)
  next
    case False
    with Suc.prems have lt: "i + 1 \<le> j" by simp
    have "logFreqs ! (i + 1) \<le> logFreqs ! j"
    proof (cases "i + 1 = j")
      case True
      then show ?thesis by simp
    next
      case False
      with lt Suc.prems show ?thesis using logFreqs_mono [of "i + 1" j] by simp
    qed
    with Suc.prems have out: "\<not> lg \<le> logFreqs ! (i + 1)" by linarith
    have "hzScan (Suc k) i lg W = hzScan k (i + 1) lg W"
      using out by (simp add: length_logFreqs Let_def)
    also have "\<dots> = real j / 14 * W + (lg - logFreqs ! j) / (logFreqs ! (j + 1) - logFreqs ! j)
        * (real (j + 1) / 14 * W - real j / 14 * W)"
      using Suc.prems lt by (intro Suc.IH) simp_all
    finally show ?thesis .
  qed
qed

lemma segment_exists:
  assumes "0 < W" "0 < x" "x < W"
  shows "\<exists>j<14. real j / 14 * W < x \<and> x \<le> real (j + 1) / 14 * W"
proof -
  define t where "t = 14 * x / W"
  have t0: "0 < t" and t14: "t < 14" using assms by (simp_all add: t_def field_simps)
  define c where "c = nat \<lceil>t\<rceil>"
  have cpos: "0 < \<lceil>t\<rceil>" using t0 by (simp add: ceiling_less_iff less_ceiling_iff)
  have c1: "1 \<le> c" using cpos unfolding c_def by linarith
  have "\<lceil>t\<rceil> \<le> 14" using t14 by (simp add: ceiling_le_iff)
  then have c14: "c \<le> 14" by (simp add: c_def)
  have ce: "real c = of_int \<lceil>t\<rceil>" using cpos unfolding c_def by (simp only: of_nat_nat less_imp_le)
  have up: "t \<le> real c" using ce by simp
  have lo: "real c - 1 < t" using ce by linarith
  define j where "j = c - 1"
  have j14: "j < 14" using c1 c14 by (simp add: j_def)
  have rj: "real j = real c - 1" using c1 by (simp add: j_def)
  have a: "real j < t" using lo rj by simp
  have b: "t \<le> real (j + 1)" using up rj by simp
  have xt: "x = t / 14 * W" using assms by (simp add: t_def)
  have "real j / 14 * W < t / 14 * W" using a \<open>0 < W\<close> by (simp add: divide_strict_right_mono)
  moreover have "t / 14 * W \<le> real (j + 1) / 14 * W"
    using b \<open>0 < W\<close> by (intro mult_right_mono divide_right_mono) simp_all
  ultimately show ?thesis using j14 xt by auto
qed

lemma hz_roundtrip:
  assumes W: "0 < W" and x0: "0 < x" and xW: "x < W"
  shows "hzToCanvasX (canvasXToHz x W) W = x"
proof -
  from segment_exists [OF assms] obtain j where j: "j < 14"
    and lo: "real j / 14 * W < x" and hi: "x \<le> real (j + 1) / 14 * W" by blast
  define X1 where "X1 = real j / 14 * W"
  define X2 where "X2 = real (j + 1) / 14 * W"
  define r where "r = (x - X1) / (X2 - X1)"
  define L1 where "L1 = logFreqs ! j"
  define L2 where "L2 = logFreqs ! (j + 1)"
  define lg where "lg = L1 + r * (L2 - L1)"
  have dX: "X2 - X1 = W / 14" by (simp add: X1_def X2_def field_simps)
  then have dXpos: "0 < X2 - X1" using W by simp
  have r0: "0 < r" using lo dXpos by (simp add: r_def X1_def)
  have r1: "r \<le> 1" using hi dXpos by (simp add: r_def X2_def)
  have dL: "0 < L2 - L1" using logFreqs_step [OF j] by (simp add: L1_def L2_def)
  have L1_0: "0 \<le> L1"
  proof (cases "j = 0")
    case True then show ?thesis by (simp add: L1_def logFreqs_0)
  next
    case False
    then show ?thesis using logFreqs_mono [of 0 j] j by (simp add: L1_def logFreqs_0)
  qed
  have lg_lo: "L1 < lg" using r0 dL by (simp add: lg_def)
  have "r * (L2 - L1) \<le> 1 * (L2 - L1)" using r1 dL by (intro mult_right_mono) simp_all
  then have lg_hi: "lg \<le> L2" by (simp add: lg_def)
  have lg4: "lg < 4"
  proof (cases "j = 13")
    case True
    then have "X2 = W" by (simp add: X2_def)
    then have "r < 1" using xW dXpos by (simp add: r_def)
    then have "r * (L2 - L1) < 1 * (L2 - L1)" using dL by (intro mult_strict_right_mono)
    then have "lg < L2" by (simp add: lg_def)
    moreover have "L2 = 4" using True by (simp add: L2_def logFreqs_14)
    ultimately show ?thesis by simp
  next
    case False
    then have "j + 1 < 14" using j by simp
    then have "L2 < 4" using logFreqs_mono [of "j + 1" 14] by (simp add: L2_def logFreqs_14)
    then show ?thesis using lg_hi by simp
  qed
  have lgpos: "0 < lg" using lg_lo L1_0 by simp
  have hz: "canvasXToHz x W = 10 powr lg"
  proof -
    have "canvasXToHz x W = xScan 14 0 x W"
      using x0 xW by (simp add: canvasXToHz_def length_logFreqs)
    also have "\<dots> = (let lg = logFreqs ! j + (x - real j / 14 * W) / (real (j + 1) / 14 * W - real j / 14 * W)
                 * (logFreqs ! (j + 1) - logFreqs ! j)
      in if lg = 0 then 0 else 10 powr lg)"
      using W j lo hi by (intro xScan_at) simp_all
    also have "\<dots> = 10 powr lg"
      using lgpos by (simp add: Let_def lg_def r_def X1_def X2_def L1_def L2_def)
    finally show ?thesis .
  qed
  have hzpos: "0 < 10 powr lg" by simp
  have e4: "(10::real) powr 4 = 10000" by simp
  have "(10::real) powr lg < 10 powr 4" by (rule powr_less_mono) (use lg4 in simp_all)
  then have hzlt: "10 powr lg < 10000" by (simp only: e4)
  have loghz: "log 10 (10 powr lg) = lg" by simp
  have "hzToCanvasX (10 powr lg) W = hzScan 14 0 lg W"
    using hzpos hzlt loghz by (simp add: hzToCanvasX_def length_logFreqs values_hz_def)
  also have "\<dots> = real j / 14 * W + (lg - logFreqs ! j) / (logFreqs ! (j + 1) - logFreqs ! j)
        * (real (j + 1) / 14 * W - real j / 14 * W)"
    using j lg_lo lg_hi by (intro hzScan_at) (simp_all add: L1_def L2_def)
  also have "\<dots> = X1 + (lg - L1) / (L2 - L1) * (X2 - X1)"
    by (simp add: X1_def X2_def L1_def L2_def)
  also have "(lg - L1) / (L2 - L1) = r" using dL by (simp add: lg_def)
  also have "X1 + r * (X2 - X1) = x" using dXpos by (simp add: r_def)
  finally show ?thesis using hz by simp
qed

text \<open>
  C5. For every width \<open>W > 0\<close> and every \<open>x\<close> strictly between \<open>0\<close> and \<open>W\<close>, mapping \<open>x\<close>
  to a frequency and back gives \<open>x\<close> again (exactly, in real arithmetic); a frequency at
  or below the first breakpoint, 0 Hz, maps to \<open>0\<close> and a frequency at or above the last
  one, 10000 Hz, maps to \<open>W\<close>.
\<close>

theorem frequency_map_roundtrip:
  assumes "0 < W"
  shows "(\<forall>x. 0 < x \<and> x < W \<longrightarrow> hzToCanvasX (canvasXToHz x W) W = x) \<and>
         (\<forall>hz. hz \<le> 0 \<longrightarrow> hzToCanvasX hz W = 0) \<and>
         (\<forall>hz. 10000 \<le> hz \<longrightarrow> hzToCanvasX hz W = W)"
proof (intro conjI allI impI)
  fix x assume "0 < x \<and> x < W"
  with assms show "hzToCanvasX (canvasXToHz x W) W = x" by (simp add: hz_roundtrip)
next
  fix hz :: real assume "hz \<le> 0"
  then show "hzToCanvasX hz W = 0" by (simp add: hzToCanvasX_def values_hz_def)
next
  fix hz :: real assume "10000 \<le> hz"
  then show "hzToCanvasX hz W = W" by (simp add: hzToCanvasX_def values_hz_def)
qed

theorem frequency_map_roundtrip_witness:
  "hzToCanvasX (canvasXToHz 100 400) 400 = 100 \<and> hzToCanvasX (-5) 400 = 0 \<and>
   hzToCanvasX 12000 400 = 400"
  using frequency_map_roundtrip [of 400] by simp

section \<open>Evaluating runs\<close>

lemmas model_defs =
  initState_def loadFile_def playFile_def pauseFile_def stopFile_def intervalCallback_def
  onendedHandler_def stopCurrentInput_def stopAudio_def switchToFileMode_def
  switchToRealtimeMode_def startAudio_def initializeAudioNodes_def connectAudioPipeline_def
  connectGraph_def connect_def addEdge_def disconnect_def stopNode_def startNode_def tryTeardown_def
  outputGain_def startTimeUpdate_def stopTimeUpdate_def drawTimelineGauge_def
  updateCurrentVolume_def toggleOutput_def updateVolume_def Let_def

text \<open>
  C1. A non-repeating playback that reaches its natural end should finish paused, with the
  position at the duration. The interval timer's callback calls \<open>stopFile\<close> once the
  elapsed time has reached the duration: with a 10 second buffer played from the start,
  the tick at audio time 10 leaves the transport stopped (stop button disabled, status
  "File stopped") with gauge and time label back at 0. When the \<open>ended\<close> event comes
  before such a tick, \<open>pauseFile\<close> runs and the position stays where the last tick put
  it, here 9.95 s, short of the duration.
\<close>

theorem natural_end_tick_stops:
  "\<not> isPlaying endSeenByTick \<and> fileSourceNode endSeenByTick = None \<and>
   statusEl endSeenByTick = StFileStopped \<and> btnStopDisabled endSeenByTick \<and>
   currentTimelineProgress endSeenByTick = 0 \<and> currentTimeText endSeenByTick = 0 \<and>
   \<not> isPlaying endSeenByEvent \<and> statusEl endSeenByEvent = StPaused \<and>
   \<not> btnStopDisabled endSeenByEvent \<and> currentTimeText endSeenByEvent = 9.95 \<and>
   currentTimelineProgress endSeenByEvent = 99.5 \<and> fileDuration endSeenByEvent = 10"
  by (simp add: model_defs)

text \<open>
  C3. At most one source node should be connected into the graph. Stopping the realtime
  input stops the stream's tracks and forgets the microphone source node without
  disconnecting it, and the rewiring disconnects only the new current source. After
  Start, File mode, loading a file and Play, the stopped microphone source \<open>Mic 0\<close> and
  the playing buffer source \<open>Buf 1\<close> are both connected to the gain node and to the
  analyser.
\<close>

theorem two_sources_connected:
  "edges micThenFile = [(Mic 0, GainOut), (Mic 0, Analyser), (Buf 1, GainOut),
                        (GainOut, Destination), (Buf 1, Analyser)] \<and>
   upstreamSources micThenFile = [Mic 0, Buf 1] \<and>
   currentSourceNode micThenFile = Some (Buf 1) \<and>
   realtimeSourceNode micThenFile = None \<and> live micThenFile = [Buf 1]"
  by (simp add: model_defs upstreamSources_def)

text \<open>
  C9. Every teardown path should survive a node whose \<open>stop()\<close> raises. \<open>pauseFile\<close>,
  \<open>stopFile\<close>, \<open>playFile\<close> and \<open>switchToRealtimeMode\<close> wrap the two calls in \<open>try\<close>;
  \<open>stopCurrentInput\<close> does not. With a playing buffer source whose \<open>stop()\<close> raises,
  \<open>stopCurrentInput\<close> throws after the disconnect and leaves the node recorded as the
  playing file source in file mode, and loading another file then ends in the load
  error with the old source still producing sound; \<open>pauseFile\<close> in the same state
  completes its cleanup.
\<close>

theorem stopCurrentInput_unwrapped:
  "threw (stopCurrentInput playingFaulty) \<and>
   fileSourceNode (stateOf (stopCurrentInput playingFaulty)) = Some (Buf 0) \<and>
   isPlaying (stateOf (stopCurrentInput playingFaulty)) \<and>
   currentSourceNode (stateOf (stopCurrentInput playingFaulty)) = Some (Buf 0) \<and>
   inputMode (stateOf (stopCurrentInput playingFaulty)) = ModeFile \<and>
   statusEl (fire (LoadFile (Some 5)) playingFaulty) = StLoadError \<and>
   fileDuration (fire (LoadFile (Some 5)) playingFaulty) = 10 \<and>
   live (fire (LoadFile (Some 5)) playingFaulty) = [Buf 0] \<and>
   fileSourceNode (pauseFile playingFaulty) = None \<and> \<not> isPlaying (pauseFile playingFaulty) \<and>
   \<not> timeUpdateInterval (pauseFile playingFaulty)"
  by (simp add: model_defs)

section \<open>Peak hold\<close>

lemma fillFloor_spec:
  "i + k \<le> length p \<Longrightarrow>
   length (fillFloor k i p) = length p \<and>
   (\<forall>j < length p. fillFloor k i p ! j = (if i \<le> j \<and> j < i + k then -120 else p ! j))"
proof (induction k arbitrary: i p)
  case 0
  then show ?case by simp
next
  case (Suc k)
  have "i + 1 + k \<le> length (p[i := -120])" using Suc.prems by simp
  from Suc.IH [OF this] show ?case
    by (auto simp: nth_list_update)
qed

lemma fillFloor_all: "fillFloor (length p) 0 p = replicate (length p) (-120)"
  using fillFloor_spec [of 0 "length p" p] by (intro nth_equalityI) simp_all

lemma newPeakBins_eq: "newPeakBins n = replicate n (-120)"
  using fillFloor_all [of "replicate n 0"] by (simp add: newPeakBins_def)

lemma peakLoop_spec:
  "i + k = length fd \<Longrightarrow> length p = length fd \<Longrightarrow>
   \<exists>q. peakLoop k i fd (Some p) = Some q \<and> length q = length fd \<and>
       (\<forall>j < length fd. q ! j = (if i \<le> j then max (fd ! j) (p ! j) else p ! j))"
proof (induction k arbitrary: i p)
  case 0
  then show ?case by simp
next
  case (Suc k)
  have i: "i < length p" using Suc.prems by simp
  let ?p = "p[i := max (fd ! i) (p ! i)]"
  have "i + 1 + k = length fd" "length ?p = length fd" using Suc.prems by simp_all
  from Suc.IH [OF this] obtain q where q: "peakLoop k (i + 1) fd (Some ?p) = Some q"
    "length q = length fd"
    "\<forall>j < length fd. q ! j = (if i + 1 \<le> j then max (fd ! j) (?p ! j) else ?p ! j)" by blast
  have "peakLoop (Suc k) i fd (Some p) = Some q" using i q(1) by (simp add: Let_def)
  moreover have "\<forall>j < length fd. q ! j = (if i \<le> j then max (fd ! j) (p ! j) else p ! j)"
  proof (intro allI impI)
    fix j assume j: "j < length fd"
    show "q ! j = (if i \<le> j then max (fd ! j) (p ! j) else p ! j)"
    proof (cases "j = i")
      case True
      then show ?thesis using q(3) j i by simp
    next
      case False
      then have "(i + 1 \<le> j) = (i \<le> j)" by auto
      then show ?thesis using q(3) j False by (simp add: nth_list_update)
    qed
  qed
  ultimately show ?case using q(2) by blast
qed

lemma drawSpectrum_peaks:
  assumes "visualAnalyser s" "peakBins s = Some p" "length fd = length p"
  shows "peakBins (drawSpectrum fd s) = Some (map2 max fd p)"
proof -
  have "0 + length fd = length fd" "length p = length fd" using assms(3) by simp_all
  from peakLoop_spec [OF this] obtain q where
    q: "peakLoop (length fd) 0 fd (Some p) = Some q" "length q = length fd"
       and q3: "\<forall>j < length fd. q ! j = (if 0 \<le> j then max (fd ! j) (p ! j) else p ! j)" by blast
  from q3 have "\<forall>j < length fd. q ! j = max (fd ! j) (p ! j)" by simp
  note q = q this
  have e: "q = map2 max fd p" using q(2,3) assms(3) by (intro nth_equalityI) simp_all
  have "peakBins (drawSpectrum fd s) = peakLoop (length fd) 0 fd (Some p)"
    by (simp add: drawSpectrum_def Let_def assms)
  also have "\<dots> = Some q" by (rule q(1))
  finally show ?thesis by (simp only: e)
qed

lemma drawSpectrum_first:
  assumes "visualAnalyser s" "peakBins s = None"
  shows "peakBins (drawSpectrum fd s) = Some (map2 max fd (replicate (length fd) (-120)))"
proof -
  have "0 + length fd = length fd" "length (replicate (length fd) (-120::real)) = length fd" by simp_all
  from peakLoop_spec [OF this] obtain q where
    q: "peakLoop (length fd) 0 fd (Some (replicate (length fd) (-120))) = Some q" "length q = length fd"
       and q3: "\<forall>j < length fd. q ! j = (if 0 \<le> j then max (fd ! j) (replicate (length fd) (-120) ! j)
           else replicate (length fd) (-120) ! j)" by blast
  from q3 have "\<forall>j < length fd. q ! j = max (fd ! j) (replicate (length fd) (-120) ! j)" by simp
  note q = q this
  have e: "q = map2 max fd (replicate (length fd) (-120))" using q(2,3) by (intro nth_equalityI) simp_all
  have "peakBins (drawSpectrum fd s) = peakLoop (length fd) 0 fd (Some (replicate (length fd) (-120)))"
    by (simp add: drawSpectrum_def Let_def assms newPeakBins_eq)
  also have "\<dots> = Some q" by (rule q(1))
  finally show ?thesis by (simp only: e)
qed

lemma frames_peaks:
  "audioCtx s \<Longrightarrow> visualAnalyser s \<Longrightarrow> peakBins s = Some p \<Longrightarrow>
   \<forall>fd \<in> set fds. length fd = length p \<Longrightarrow>
   \<exists>q. peakBins (run (map Frame fds) s) = Some q \<and> length q = length p \<and>
       (\<forall>i < length p. p ! i \<le> q ! i) \<and>
       audioCtx (run (map Frame fds) s) \<and> visualAnalyser (run (map Frame fds) s)"
proof (induction fds arbitrary: s p)
  case Nil
  then show ?case by simp
next
  case (Cons fd fds)
  let ?s = "drawSpectrum fd s"
  have len: "length fd = length p" using Cons.prems by simp
  have pk: "peakBins ?s = Some (map2 max fd p)"
    using Cons.prems len by (simp add: drawSpectrum_peaks)
  have keep: "audioCtx ?s" "visualAnalyser ?s" using Cons.prems by (simp_all add: drawSpectrum_def Let_def)
  have "\<forall>f \<in> set fds. length f = length (map2 max fd p)" using Cons.prems len by simp
  from Cons.IH [OF keep pk this] obtain q where
    q: "peakBins (run (map Frame fds) ?s) = Some q" "length q = length (map2 max fd p)"
       "\<forall>i < length (map2 max fd p). map2 max fd p ! i \<le> q ! i"
       "audioCtx (run (map Frame fds) ?s)" "visualAnalyser (run (map Frame fds) ?s)" by blast
  have r: "run (map Frame (fd # fds)) s = run (map Frame fds) ?s"
    using Cons.prems by (simp add: drawLoop_def)
  have "\<forall>i < length p. p ! i \<le> q ! i"
  proof (intro allI impI)
    fix i assume i: "i < length p"
    then have "map2 max fd p ! i \<le> q ! i" using q(3) len by simp
    moreover have "p ! i \<le> map2 max fd p ! i" using i len by simp
    ultimately show "p ! i \<le> q ! i" by linarith
  qed
  then show ?case using q r len by simp
qed

lemma run_append: "run (xs @ ys) s = run ys (run xs s)"
  by (induction xs arbitrary: s) simp_all

text \<open>
  C6. Across any sequence of spectrum frames of the analyser's bin count, every bin of the
  peak array never decreases: after a further frame it is the maximum of the frame's
  value and the previous peak. A reset sets every bin to exactly \<open>-120\<close>.
\<close>

theorem peak_hold_monotone:
  assumes "audioCtx s" "visualAnalyser s" "peakBins s = Some p"
    and "\<forall>f \<in> set fds. length f = length p" "length fd = length p" "i < length p"
  shows "(\<exists>q q'. peakBins (run (map Frame fds) s) = Some q \<and>
                 peakBins (run (map Frame (fds @ [fd])) s) = Some q' \<and>
                 length q = length p \<and> length q' = length p \<and>
                 p ! i \<le> q ! i \<and> q ! i \<le> q' ! i \<and> q' ! i = max (fd ! i) (q ! i)) \<and>
         peakBins (resetMaxPeaks (run (map Frame (fds @ [fd])) s)) = Some (replicate (length p) (-120))"
proof -
  let ?s = "run (map Frame fds) s"
  from frames_peaks [OF assms(1-4)] obtain q where
    q: "peakBins ?s = Some q" "length q = length p" "\<forall>i < length p. p ! i \<le> q ! i"
       "audioCtx ?s" "visualAnalyser ?s" by blast
  have step: "run (map Frame (fds @ [fd])) s = drawSpectrum fd ?s"
    using q(4,5) by (simp add: run_append drawLoop_def)
  have pk: "peakBins (drawSpectrum fd ?s) = Some (map2 max fd q)"
    using q assms(5) by (simp add: drawSpectrum_peaks)
  have a: "map2 max fd q ! i = max (fd ! i) (q ! i)" using assms(5,6) q(2) by simp
  have "peakBins (resetMaxPeaks (drawSpectrum fd ?s)) = Some (replicate (length p) (-120))"
    using pk assms(5) q(2) fillFloor_all [of "map2 max fd q"] by (simp add: resetMaxPeaks_def)
  then show ?thesis using q pk step a assms(5,6) by simp
qed

theorem peak_hold_monotone_witness:
  "(\<exists>q q'. peakBins (run (map Frame [[-70, -60]])
                     (run [LoadFile (Some 10), Frame [-80, -50]] (initState (Some 0)))) = Some q \<and>
          peakBins (run (map Frame ([[-70, -60]] @ [[-90, -40]]))
                     (run [LoadFile (Some 10), Frame [-80, -50]] (initState (Some 0)))) = Some q' \<and>
          length q = length [-80, -50 :: real] \<and> length q' = length [-80, -50 :: real] \<and>
          [-80, -50] ! 1 \<le> q ! 1 \<and> q ! 1 \<le> q' ! 1 \<and> q' ! 1 = max ([-90, -40] ! 1) (q ! 1)) \<and>
   peakBins (resetMaxPeaks (run (map Frame ([[-70, -60]] @ [[-90, -40]]))
                     (run [LoadFile (Some 10), Frame [-80, -50]] (initState (Some 0))))) =
     Some (replicate (length [-80, -50 :: real]) (-120))"
  by (rule peak_hold_monotone)
     (simp_all add: model_defs drawLoop_def drawSpectrum_def newPeakBins_def)

section \<open>Rewiring the graph\<close>

lemma disconnectEach_edges:
  "\<exists>es. disconnectEach ns s = s\<lparr>edges := es\<rparr> \<and> set es \<subseteq> set (edges s)"
proof (induction ns arbitrary: s)
  case Nil
  have "disconnectEach [] s = s\<lparr>edges := edges s\<rparr>" by simp
  then show ?case by blast
next
  case (Cons n ns)
  show ?case
  proof (cases "n \<in> set (disconnectThrows s)")
    case True
    then have "disconnectEach (n # ns) s = s\<lparr>edges := edges s\<rparr>" by (simp add: disconnect_def)
    then show ?thesis by blast
  next
    case False
    let ?s = "s\<lparr>edges := filter (\<lambda>e. fst e \<noteq> n) (edges s)\<rparr>"
    from Cons.IH [of ?s] obtain es where
      es: "disconnectEach ns ?s = ?s\<lparr>edges := es\<rparr>" "set es \<subseteq> set (edges ?s)" by blast
    have "disconnectEach (n # ns) s = s\<lparr>edges := es\<rparr>" using False es(1) by (simp add: disconnect_def)
    moreover have "set es \<subseteq> set (edges s)" using es(2) by auto
    ultimately show ?thesis by blast
  qed
qed

lemma disconnectEach_shape: "disconnectEach ns s = s\<lparr>edges := edges (disconnectEach ns s)\<rparr>"
proof -
  from disconnectEach_edges [of ns s] obtain es where es: "disconnectEach ns s = s\<lparr>edges := es\<rparr>" by blast
  then have "edges (disconnectEach ns s) = es" by simp
  with es show ?thesis by simp
qed

lemma disconnectEach_subset: "set (edges (disconnectEach ns s)) \<subseteq> set (edges s)"
proof -
  from disconnectEach_edges [of ns s] obtain es where
    "disconnectEach ns s = s\<lparr>edges := es\<rparr>" "set es \<subseteq> set (edges s)" by blast
  then show ?thesis by simp
qed

lemma disconnectEach_fields:
  "gainOut (disconnectEach ns s) = gainOut s"
  "highpass (disconnectEach ns s) = highpass s"
  "lowpass (disconnectEach ns s) = lowpass s"
  "visualAnalyser (disconnectEach ns s) = visualAnalyser s"
  "currentSourceNode (disconnectEach ns s) = currentSourceNode s"
  "outputEnabled (disconnectEach ns s) = outputEnabled s"
  "volumeLevel (disconnectEach ns s) = volumeLevel s"
  "selectedBandHz (disconnectEach ns s) = selectedBandHz s"
  by (subst disconnectEach_shape, simp)+

lemma disconnectEach_clean:
  "set ns \<inter> set (disconnectThrows s) = {} \<Longrightarrow>
   disconnectEach ns s = s\<lparr>edges := filter (\<lambda>e. fst e \<notin> set ns) (edges s)\<rparr>"
proof (induction ns arbitrary: s)
  case Nil
  then show ?case by simp
next
  case (Cons n ns)
  let ?s = "s\<lparr>edges := filter (\<lambda>e. fst e \<noteq> n) (edges s)\<rparr>"
  have "set ns \<inter> set (disconnectThrows ?s) = {}" using Cons.prems by auto
  from Cons.IH [OF this] Cons.prems show ?case
    by (simp add: disconnect_def conj_commute)
qed

lemma disconnectEach_edges_cong:
  "edges s2 = edges s \<Longrightarrow> disconnectThrows s2 = disconnectThrows s \<Longrightarrow>
   edges (disconnectEach ns s2) = edges (disconnectEach ns s)"
proof (induction ns arbitrary: s s2)
  case Nil
  then show ?case by simp
next
  case (Cons n ns)
  show ?case
  proof (cases "n \<in> set (disconnectThrows s)")
    case True
    then show ?thesis using Cons.prems by (simp add: disconnect_def)
  next
    case False
    let ?s = "s\<lparr>edges := filter (\<lambda>e. fst e \<noteq> n) (edges s)\<rparr>"
    let ?s2 = "s2\<lparr>edges := filter (\<lambda>e. fst e \<noteq> n) (edges s2)\<rparr>"
    have "edges ?s2 = edges ?s" "disconnectThrows ?s2 = disconnectThrows ?s"
      using Cons.prems by simp_all
    from Cons.IH [OF this] show ?thesis using False Cons.prems by (simp add: disconnect_def)
  qed
qed

lemma set_addEdge: "set (addEdge e es) = insert e (set es)"
  by (auto simp: addEdge_def)

text \<open>What a rewiring does once its guard has passed and the filter nodes exist.\<close>

lemma connectAudioPipeline_rewire:
  assumes "currentSourceNode s = Some src" "gainOut s = Some g" "visualAnalyser s"
    "highpass s = Some h" "lowpass s = Some l"
  shows "connectAudioPipeline s = Returned
       (connect src Analyser (connect GainOut Destination
         ((case selectedBandHz s of
             None \<Rightarrow> connect src GainOut (disconnectEach [Highpass, Lowpass, GainOut, Analyser, src] s)
           | Some band \<Rightarrow>
               connect Lowpass GainOut (connect Highpass Lowpass (connect src Highpass
                 ((disconnectEach [Highpass, Lowpass, GainOut, Analyser, src] s)
                    \<lparr>highpass := Some (max 10 (fst band)),
                     lowpass := Some (max (max 10 (fst band) + 10) (snd band))\<rparr>))))
          \<lparr>gainOut := Some (outputGain s)\<rparr>)))"
proof (cases "selectedBandHz s")
  case None
  then show ?thesis using assms
    by (simp add: connectAudioPipeline_def Let_def disconnectEach_fields outputGain_def connect_def
        del: disconnectEach.simps)
next
  case (Some band)
  then show ?thesis using assms
    by (simp add: connectAudioPipeline_def Let_def disconnectEach_fields outputGain_def connect_def
        del: disconnectEach.simps)
qed

lemma rewired_edge_list:
  assumes "currentSourceNode s = Some src" "gainOut s = Some g" "visualAnalyser s"
    "highpass s = Some h" "lowpass s = Some l"
  shows "edges (stateOf (connectAudioPipeline s)) =
     addEdge (src, Analyser) (addEdge (GainOut, Destination)
       (case selectedBandHz s of
          None \<Rightarrow> addEdge (src, GainOut) (edges (disconnectEach [Highpass, Lowpass, GainOut, Analyser, src] s))
        | Some band \<Rightarrow>
            addEdge (Lowpass, GainOut) (addEdge (Highpass, Lowpass) (addEdge (src, Highpass)
              (edges (disconnectEach [Highpass, Lowpass, GainOut, Analyser, src] s))))))"
  by (cases "selectedBandHz s")
     (simp_all add: connectAudioPipeline_rewire [OF assms] connect_def del: disconnectEach.simps)

lemma rewired_gain:
  assumes "currentSourceNode s = Some src" "gainOut s = Some g" "visualAnalyser s"
    "highpass s = Some h" "lowpass s = Some l"
  shows "gainOut (stateOf (connectAudioPipeline s)) = Some (outputGain s)"
  by (cases "selectedBandHz s")
     (simp_all add: connectAudioPipeline_rewire [OF assms] connect_def del: disconnectEach.simps)

text \<open>
  C4. When a band \<open>{lo, hi}\<close> is selected and the graph is rewired (the guard of
  \<open>connectAudioPipeline\<close> passes and the filter nodes exist), the highpass cutoff becomes
  \<open>max(10, lo)\<close> and the lowpass cutoff \<open>max(highpass + 10, hi)\<close>, so the lowpass cutoff
  is at least the highpass cutoff plus 10, for every \<open>lo\<close> and \<open>hi\<close>, equal ones included.
\<close>

theorem band_filter_cutoffs:
  assumes "currentSourceNode s = Some src" "gainOut s = Some g" "visualAnalyser s"
    "highpass s = Some h" "lowpass s = Some l" "selectedBandHz s = Some (lo, hi)"
  shows "\<exists>s' hp lp. connectAudioPipeline s = Returned s' \<and>
           highpass s' = Some hp \<and> lowpass s' = Some lp \<and>
           hp = max 10 lo \<and> lp = max (hp + 10) hi \<and> hp + 10 \<le> lp"
  using assms(6) by (simp add: connectAudioPipeline_rewire [OF assms(1-5)] connect_def
      del: disconnectEach.simps)

theorem band_filter_cutoffs_witness:
  "\<exists>s' hp lp. connectAudioPipeline
       ((run [StartAudio True] (initState (Some 0)))\<lparr>selectedBandHz := Some (300, 300)\<rparr>) = Returned s' \<and>
           highpass s' = Some hp \<and> lowpass s' = Some lp \<and>
           hp = max 10 300 \<and> lp = max (hp + 10) 300 \<and> hp + 10 \<le> lp"
  by (rule band_filter_cutoffs [where src = "Mic 0" and g = 0 and h = 20 and l = 20000])
     (simp_all add: model_defs)

lemma analysisClean_iff:
  "analysisClean s = (\<forall>e \<in> set (edges s). snd e = Analyser \<longrightarrow> isSource (fst e))"
  by (simp add: analysisClean_def list_all_iff)

text \<open>
  C8. After every rewiring the current source is connected to the analyser, whether or
  not a band is selected; the connections into the analyser still all come from source
  nodes (none from the gain or filter nodes); and rewiring with any other output flag and
  volume gives the same connections: only the gain value differs.
\<close>

theorem analysis_tap_always_connected:
  assumes "currentSourceNode s = Some src" "gainOut s = Some g" "visualAnalyser s"
    "highpass s = Some h" "lowpass s = Some l" "isSource src" "analysisClean s"
  shows "\<exists>s'. connectAudioPipeline s = Returned s' \<and> (src, Analyser) \<in> set (edges s') \<and>
           analysisClean s' \<and>
           (\<forall>en v. \<exists>s''. connectAudioPipeline (s\<lparr>outputEnabled := en, volumeLevel := v\<rparr>) = Returned s'' \<and>
                     edges s'' = edges s' \<and> gainOut s'' = Some (if en then v else 0))"
proof -
  let ?ns = "[Highpass, Lowpass, GainOut, Analyser, src]"
  note rw = connectAudioPipeline_rewire [OF assms(1-5)]
  obtain s' where s': "connectAudioPipeline s = Returned s'" using rw by simp
  have E: "edges s' =
     addEdge (src, Analyser) (addEdge (GainOut, Destination)
       (case selectedBandHz s of
          None \<Rightarrow> addEdge (src, GainOut) (edges (disconnectEach ?ns s))
        | Some band \<Rightarrow>
            addEdge (Lowpass, GainOut) (addEdge (Highpass, Lowpass) (addEdge (src, Highpass)
              (edges (disconnectEach ?ns s))))))"
    using rewired_edge_list [OF assms(1-5)] s' by simp
  have tap: "(src, Analyser) \<in> set (edges s')" by (simp add: E set_addEdge)
  have clean: "analysisClean s'"
    unfolding analysisClean_iff
  proof (intro ballI impI)
    fix e assume e: "e \<in> set (edges s')" and a: "snd e = Analyser"
    from e have "e = (src, Analyser) \<or> e \<in> set (edges (disconnectEach ?ns s))"
      using a by (cases "selectedBandHz s") (auto simp: E set_addEdge)
    then show "isSource (fst e)"
    proof
      assume "e = (src, Analyser)"
      then show ?thesis using assms(6) by simp
    next
      assume "e \<in> set (edges (disconnectEach ?ns s))"
      then have "e \<in> set (edges s)" using disconnectEach_subset [of ?ns s] by blast
      then show ?thesis using assms(7) a by (simp add: analysisClean_iff)
    qed
  qed
  have indep: "\<exists>s''. connectAudioPipeline (s\<lparr>outputEnabled := en, volumeLevel := v\<rparr>) = Returned s'' \<and>
                     edges s'' = edges s' \<and> gainOut s'' = Some (if en then v else 0)" for en v
  proof -
    let ?s2 = "s\<lparr>outputEnabled := en, volumeLevel := v\<rparr>"
    have a2: "currentSourceNode ?s2 = Some src" "gainOut ?s2 = Some g" "visualAnalyser ?s2"
      "highpass ?s2 = Some h" "lowpass ?s2 = Some l" using assms by simp_all
    have d: "edges (disconnectEach ?ns ?s2) = edges (disconnectEach ?ns s)"
      by (rule disconnectEach_edges_cong) simp_all
    obtain s'' where s'': "connectAudioPipeline ?s2 = Returned s''"
      using connectAudioPipeline_rewire [OF a2] by simp
    have "edges s'' = edges s'"
      using rewired_edge_list [OF a2] s'' by (simp only: E d stateOf.simps) simp
    moreover have "gainOut s'' = Some (if en then v else 0)"
      using rewired_gain [OF a2] s'' by (simp add: outputGain_def)
    ultimately show ?thesis using s'' by blast
  qed
  show ?thesis using s' tap clean indep by blast
qed

theorem analysis_tap_always_connected_witness:
  "\<exists>s'. connectAudioPipeline (run [StartAudio True, OutputClick] (initState (Some 0))) = Returned s' \<and>
         (Mic 0, Analyser) \<in> set (edges s') \<and> analysisClean s' \<and>
           (\<forall>en v. \<exists>s''. connectAudioPipeline
               ((run [StartAudio True, OutputClick] (initState (Some 0)))\<lparr>outputEnabled := en, volumeLevel := v\<rparr>) = Returned s'' \<and>
                     edges s'' = edges s' \<and> gainOut s'' = Some (if en then v else 0))"
  by (rule analysis_tap_always_connected [where g = 1 and h = 20 and l = 20000])
     (simp_all add: model_defs analysisClean_def)

section \<open>Band selection\<close>

lemma frameI:
  "t = s\<lparr>edges := edges t, highpass := highpass t, lowpass := lowpass t, gainOut := gainOut t\<rparr> \<Longrightarrow>
   \<exists>E H L G. t = s\<lparr>edges := E, highpass := H, lowpass := L, gainOut := G\<rparr>"
  by blast

lemma connectAudioPipeline_frame:
  "\<exists>E H L G. stateOf (connectAudioPipeline s) = s\<lparr>edges := E, highpass := H, lowpass := L, gainOut := G\<rparr>"
proof (rule frameI)
  let ?t = "stateOf (connectAudioPipeline s)"
  show "?t = s\<lparr>edges := edges ?t, highpass := highpass ?t, lowpass := lowpass ?t, gainOut := gainOut ?t\<rparr>"
  proof (cases "currentSourceNode s")
    case None
    then have "?t = s" by (simp add: connectAudioPipeline_def)
    then show ?thesis by simp
  next
    case (Some src)
    show ?thesis
    proof (cases "gainOut s = None \<or> \<not> visualAnalyser s")
      case True
      then have "?t = s" using Some by (simp add: connectAudioPipeline_def)
      then show ?thesis by simp
    next
      case False
      define ns where "ns = (if highpass s = None then [] else [Highpass]) @
                         (if lowpass s = None then [] else [Lowpass]) @ [GainOut, Analyser, src]"
      from disconnectEach_edges [of ns s] obtain es where
        es: "disconnectEach ns s = s\<lparr>edges := es\<rparr>" by blast
      note es' = es [unfolded ns_def]
      show ?thesis
      proof (cases "selectedBandHz s")
        case None
        then show ?thesis using Some False es'
          by (simp add: connectAudioPipeline_def Let_def connect_def)
      next
        case band: (Some band)
        show ?thesis
        proof (cases "highpass s")
          case None
          then show ?thesis using Some False es' band
            by (simp add: connectAudioPipeline_def Let_def connect_def)
        next
          case hp: (Some h)
          show ?thesis
          proof (cases "lowpass s")
            case None
            then show ?thesis using Some False es' band hp
              by (simp add: connectAudioPipeline_def Let_def connect_def)
          next
            case lp: (Some l)
            then show ?thesis using Some False es' band hp
              by (simp add: connectAudioPipeline_def Let_def connect_def)
          qed
        qed
      qed
    qed
  qed
qed

lemma connectAudioPipeline_keeps_band:
  "selectedBandHz (stateOf (connectAudioPipeline s)) = selectedBandHz s"
  "selectedBandPixels (stateOf (connectAudioPipeline s)) = selectedBandPixels s"
proof -
  from connectAudioPipeline_frame [of s] obtain E H L G where
    "stateOf (connectAudioPipeline s) = s\<lparr>edges := E, highpass := H, lowpass := L, gainOut := G\<rparr>"
    by blast
  then show "selectedBandHz (stateOf (connectAudioPipeline s)) = selectedBandHz s"
    "selectedBandPixels (stateOf (connectAudioPipeline s)) = selectedBandPixels s" by simp_all
qed

lemma stateOf_andThen_Returned:
  "stateOf (andThen c (\<lambda>s. Returned (f s))) = (if threw c then stateOf c else f (stateOf c))"
  by (cases c) simp_all

text \<open>
  When a drag ends, the band is committed exactly when both ends lie in the plot area
  (\<open>0 \<le> x1\<close>, \<open>x2 \<le> plotWidth\<close>) and the span is at least 5 pixels: the pixel pair and
  the frequencies \<open>canvasXToHz\<close> gives for it are stored. Every other completed drag,
  also a long one with an end outside the plot area, clears both fields and calls the
  rewiring. With a current source set and the nodes in place the rewiring leaves the
  pass-through graph: the source connected to the gain node and the analyser, the gain
  node to the destination, and nothing leaving the filters.
\<close>

lemma drag_commit_or_clear:
  assumes "dragging s" "dragStartX s = Some a" "dragEndX s = Some b"
  shows "let x1 = min a b; x2 = max a b; plotWidth = rectWidth - 10;
             s' = stateOf (mouseup rectWidth s)
         in if 0 \<le> x1 \<and> x2 \<le> plotWidth \<and> 5 \<le> x2 - x1
            then selectedBandPixels s' = Some (x1, x2) \<and>
                 selectedBandHz s' = Some (canvasXToHz x1 plotWidth, canvasXToHz x2 plotWidth)
            else selectedBandPixels s' = None \<and> selectedBandHz s' = None \<and>
                 (\<forall>src g h l.
                    currentSourceNode s = Some src \<and> gainOut s = Some g \<and> visualAnalyser s \<and>
                    highpass s = Some h \<and> lowpass s = Some l \<and> disconnectThrows s = [] \<longrightarrow>
                    edges s' =
                      filter (\<lambda>e. fst e \<notin> {Highpass, Lowpass, GainOut, Analyser, src}) (edges s) @
                      [(src, GainOut), (GainOut, Destination), (src, Analyser)])"
proof -
  let ?ok = "0 \<le> min a b \<and> max a b \<le> rectWidth - 10 \<and> 5 \<le> max a b - min a b"
  let ?sel = "s\<lparr>dragging := False, selectedBandPixels := Some (min a b, max a b),
      selectedBandHz := Some (canvasXToHz (min a b) (rectWidth - 10),
                              canvasXToHz (max a b) (rectWidth - 10)),
      statusEl := StBandSelected (canvasXToHz (min a b) (rectWidth - 10))
                                 (canvasXToHz (max a b) (rectWidth - 10))\<rparr>"
  let ?s0 = "s\<lparr>dragging := False, selectedBandHz := None, selectedBandPixels := None,
                dragStartX := None, dragEndX := None\<rparr>"
  let ?K = "\<lambda>s2. Returned (s2\<lparr>dragStartX := None, dragEndX := None\<rparr>)"
  let ?s' = "stateOf (mouseup rectWidth s)"
  have m: "mouseup rectWidth s =
      andThen (if ?ok then connectAudioPipeline ?sel
               else andThen (connectAudioPipeline ?s0)
                      (\<lambda>s1. Returned (s1\<lparr>statusEl := StBandCleared\<rparr>))) ?K"
    using assms by (simp add: mouseup_def Let_def clearBand_def connectGraph_def)
  show ?thesis
  proof (cases ?ok)
    case True
    have m1: "mouseup rectWidth s = andThen (connectAudioPipeline ?sel) ?K"
      by (subst m, subst if_P [OF True], rule refl)
    have "selectedBandPixels ?s' = Some (min a b, max a b) \<and>
          selectedBandHz ?s' = Some (canvasXToHz (min a b) (rectWidth - 10),
                                     canvasXToHz (max a b) (rectWidth - 10))"
      by (cases "connectAudioPipeline ?sel")
         (use connectAudioPipeline_keeps_band [of ?sel] in \<open>simp_all add: m1\<close>)
    then show ?thesis unfolding Let_def by (subst if_P [OF True])
  next
    case False
    have m0: "mouseup rectWidth s =
        andThen (andThen (connectAudioPipeline ?s0)
                   (\<lambda>s1. Returned (s1\<lparr>statusEl := StBandCleared\<rparr>))) ?K"
      by (subst m, subst if_not_P [OF False], rule refl)
    have sel: "selectedBandPixels ?s' = None \<and> selectedBandHz ?s' = None"
      by (cases "connectAudioPipeline ?s0")
         (use connectAudioPipeline_keeps_band [of ?s0] in \<open>simp_all add: m0\<close>)
    have topo: "edges ?s' =
        filter (\<lambda>e. fst e \<notin> {Highpass, Lowpass, GainOut, Analyser, src}) (edges s) @
        [(src, GainOut), (GainOut, Destination), (src, Analyser)]"
      if h: "currentSourceNode s = Some src \<and> gainOut s = Some g \<and> visualAnalyser s \<and>
        highpass s = Some h \<and> lowpass s = Some l \<and> disconnectThrows s = []" for src g h l
    proof -
      have a0: "currentSourceNode ?s0 = Some src" "gainOut ?s0 = Some g" "visualAnalyser ?s0"
        "highpass ?s0 = Some h" "lowpass ?s0 = Some l" using h by simp_all
      have "set [Highpass, Lowpass, GainOut, Analyser, src] \<inter> set (disconnectThrows ?s0) = {}"
        using h by simp
      from disconnectEach_clean [OF this]
      have d: "edges (disconnectEach [Highpass, Lowpass, GainOut, Analyser, src] ?s0) =
         filter (\<lambda>e. fst e \<notin> {Highpass, Lowpass, GainOut, Analyser, src}) (edges s)"
        by simp
      obtain s1 where s1: "connectAudioPipeline ?s0 = Returned s1"
        using connectAudioPipeline_rewire [OF a0] by simp
      have "edges s1 = filter (\<lambda>e. fst e \<notin> {Highpass, Lowpass, GainOut, Analyser, src}) (edges s) @
        [(src, GainOut), (GainOut, Destination), (src, Analyser)]"
        using rewired_edge_list [OF a0] s1 by (simp only: d stateOf.simps) (auto simp: addEdge_def)
      then show ?thesis by (simp add: m0 s1)
    qed
    show ?thesis unfolding Let_def
      by (subst if_not_P [OF False]) (use sel topo in blast)
  qed
qed

lemma drag_commit_or_clear_example:
  "(let s' = stateOf (mouseup 410 (run [StartAudio True, MouseDown 100 0 410, MouseMove 200 410]
                                     (initState (Some 0))))
    in selectedBandPixels s' = Some (100, 200) \<and>
       selectedBandHz s' = Some (canvasXToHz 100 400, canvasXToHz 200 400)) \<and>
   (let s' = stateOf (mouseup 410 (run [StartAudio True, MouseDown 100 0 410, MouseMove 200 410,
                                         MouseUp 410, MouseDown 50 0 410, MouseMove 52 410]
                                     (initState (Some 0))))
    in selectedBandPixels s' = None \<and> selectedBandHz s' = None \<and>
       edges s' = [(Mic 0, GainOut), (GainOut, Destination), (Mic 0, Analyser)])"
  using drag_commit_or_clear [of "run [StartAudio True, MouseDown 100 0 410, MouseMove 200 410]
                                     (initState (Some 0))" 100 200 410]
    drag_commit_or_clear [of "run [StartAudio True, MouseDown 100 0 410, MouseMove 200 410,
                                         MouseUp 410, MouseDown 50 0 410, MouseMove 52 410]
                                     (initState (Some 0))" 50 52 410]
  by (simp add: model_defs mousedown_def mousemove_def mouseup_def)

text \<open>
  C10. A completed drag that does not commit a band should clear the selection and return
  the graph to pass-through; \<open>clearBand\<close> itself marks its call of \<open>connectGraph\<close> as the
  return to full pass-through. The rewiring returns at its first line when no current
  source is set, and stopping the input forgets the current source while the connections
  of the source node stay. After Start, a band selection, Stop and a click on the
  spectrum, the selection is cleared and the status says so, but the microphone source
  is still wired through the two filters. After a file load, a failed load (which leaves
  the mode at none), Play, a band selection and a click on the realtime mode button, the
  buffer source keeps playing with no current source set; the click on the spectrum
  clears the selection, and the sound still passes the high-pass and the low-pass filter
  at the cutoffs of the cleared band.
\<close>

theorem clear_leaves_band_filter:
  "selectedBandHz clearedAfterStop = None \<and> selectedBandPixels clearedAfterStop = None \<and>
   statusEl clearedAfterStop = StBandCleared \<and> currentSourceNode clearedAfterStop = None \<and>
   edges clearedAfterStop =
     [(Mic 0, Highpass), (Highpass, Lowpass), (Lowpass, GainOut), (GainOut, Destination),
      (Mic 0, Analyser)] \<and>
   selectedBandHz clearedWhileOrphanPlays = None \<and>
   selectedBandPixels clearedWhileOrphanPlays = None \<and>
   statusEl clearedWhileOrphanPlays = StBandCleared \<and>
   currentSourceNode clearedWhileOrphanPlays = None \<and>
   live clearedWhileOrphanPlays = [Buf 0] \<and>
   edges clearedWhileOrphanPlays =
     [(Buf 0, Highpass), (Highpass, Lowpass), (Lowpass, GainOut), (GainOut, Destination),
      (Buf 0, Analyser)] \<and>
   highpass clearedWhileOrphanPlays = Some (max 10 (canvasXToHz 100 400)) \<and>
   lowpass clearedWhileOrphanPlays =
     Some (max (max 10 (canvasXToHz 100 400) + 10) (canvasXToHz 200 400))"
  by (simp add: model_defs mousedown_def mousemove_def mouseup_def clearBand_def)

section \<open>Pause and resume\<close>

lemma tryTeardown_shape:
  "tryTeardown n s = s\<lparr>edges := edges (tryTeardown n s), live := live (tryTeardown n s)\<rparr>"
  by (simp add: tryTeardown_def disconnect_def stopNode_def)

lemma stopTimeUpdate_shape:
  "stopTimeUpdate s = s\<lparr>timers := timers (stopTimeUpdate s),
                         timeUpdateInterval := timeUpdateInterval (stopTimeUpdate s)\<rparr>"
  by (simp add: stopTimeUpdate_def)

lemma connectAudioPipeline_returns:
  assumes "gainOut s = Some g" "visualAnalyser s" "highpass s = Some h" "lowpass s = Some l"
  shows "\<exists>E H L G. connectAudioPipeline s =
           Returned (s\<lparr>edges := E, highpass := H, lowpass := L, gainOut := G\<rparr>)"
proof (cases "currentSourceNode s")
  case None
  then have "connectAudioPipeline s = Returned s" by (simp add: connectAudioPipeline_def)
  moreover from connectAudioPipeline_frame [of s] obtain E H L G where
    "stateOf (connectAudioPipeline s) = s\<lparr>edges := E, highpass := H, lowpass := L, gainOut := G\<rparr>"
    by blast
  ultimately show ?thesis by auto
next
  case (Some src)
  from connectAudioPipeline_rewire [OF Some assms] obtain s' where
    s': "connectAudioPipeline s = Returned s'" by simp
  from connectAudioPipeline_frame [of s] obtain E H L G where
    "stateOf (connectAudioPipeline s) = s\<lparr>edges := E, highpass := H, lowpass := L, gainOut := G\<rparr>"
    by blast
  with s' show ?thesis by auto
qed

text \<open>\<open>playFile\<close> when no file source is held and the graph nodes exist.\<close>

lemma playFile_fresh:
  assumes "fileBuffer s" "audioCtx s" "fileSourceNode s = None"
    and "gainOut s = Some g" "visualAnalyser s" "highpass s = Some h" "lowpass s = Some l"
    and "0 \<le> currentTimelineProgress s / 100 * fileDuration s"
  shows "isPlaying (playFile s) \<and> fileSourceNode (playFile s) = Some (Buf (nextId s)) \<and>
         startedAt (playFile s) =
           (Buf (nextId s), currentTimelineProgress s / 100 * fileDuration s) # startedAt s"
proof -
  let ?n = "Buf (nextId s)"
  let ?s3 = "s\<lparr>nextId := Suc (nextId s), fileSourceNode := Some ?n,
                looping := (if isRepeating s then ?n # looping s else looping s),
                currentSourceNode := Some ?n\<rparr>"
  let ?K = "\<lambda>s4. andThen (startNode ?n ((currentTimelineProgress s4 / 100) * fileDuration s4) s4)
              (\<lambda>s5. andThen
                 (startTimeUpdate
                    (s5\<lparr>isPlaying := True, btnPlayDisabled := True,
                         btnPauseDisabled := False, btnStopDisabled := False\<rparr>))
                 (\<lambda>s6. Returned (s6\<lparr>onended := ?n # onended s6, statusEl := StPlaying\<rparr>)))"
  have pf: "playFile s =
      stateOf (catch (andThen (connectAudioPipeline ?s3) ?K)
                 (\<lambda>s'. Returned (s'\<lparr>statusEl := StPlaybackError\<rparr>)))"
    using assms(1-3) by (simp add: playFile_def Let_def)
  have n3: "gainOut ?s3 = Some g" "visualAnalyser ?s3" "highpass ?s3 = Some h" "lowpass ?s3 = Some l"
    using assms(4-7) by simp_all
  from connectAudioPipeline_returns [OF n3] obtain E H L G where
    "connectAudioPipeline ?s3 = Returned (?s3\<lparr>edges := E, highpass := H, lowpass := L, gainOut := G\<rparr>)"
    by blast
  then obtain s4 where cap: "connectAudioPipeline ?s3 = Returned s4"
    and s4: "s4 = ?s3\<lparr>edges := E, highpass := H, lowpass := L, gainOut := G\<rparr>" by blast
  have f4: "currentTimelineProgress s4 = currentTimelineProgress s" "fileDuration s4 = fileDuration s"
    "startedAt s4 = startedAt s" "fileSourceNode s4 = Some ?n"
    by (simp_all add: s4)
  show ?thesis
    unfolding pf cap using assms(8) f4
    by (cases "timelineSlider s4") (simp_all add: startNode_def startTimeUpdate_def Let_def)
qed

text \<open>
  While a file plays with the interval timer running, let the timer tick when its elapsed
  value \<open>audioTime - playStartTime + pausedTime\<close> is \<open>e\<close> (with \<open>0 \<le> e\<close> below the
  duration), let any time \<open>dt\<close> pass, then pause and play again. The pause records
  nothing: anchor, paused offset and gauge are as the tick left them. The new playback
  node is started at offset \<open>e\<close>, the value of that last tick read back from the
  timeline gauge.
\<close>

lemma resume_from_last_tick:
  assumes "fileBuffer s" "audioCtx s" "isPlaying s" "fileSourceNode s = Some n" "0 < timers s"
    and "gainOut s = Some g" "visualAnalyser s" "highpass s = Some h" "lowpass s = Some l"
    and "0 < fileDuration s" "e = audioTime s - playStartTime s + pausedTime s"
    and "0 \<le> e" "e < fileDuration s" "0 \<le> dt"
  shows "let s1 = run [TimerTick, Advance dt, PauseClick] s; s2 = fire PlayClick s1
         in \<not> isPlaying s1 \<and> pausedTime s1 = pausedTime s \<and> playStartTime s1 = playStartTime s \<and>
            currentTimelineProgress s1 = e / fileDuration s * 100 \<and>
            isPlaying s2 \<and> fileSourceNode s2 = Some (Buf (nextId s)) \<and>
            startedAt s2 = (Buf (nextId s), e) # startedAt s"
proof -
  let ?d = "fileDuration s"
  let ?p = "e / ?d * 100"
  let ?a = "s\<lparr>currentTimelineProgress := ?p, currentTimeText := e\<rparr>"
  have lt1: "e / ?d < 1" using assms(10,13) by simp
  have tick: "fire TimerTick s = ?a"
    using assms(2,3,5,11,13) lt1 by (simp add: intervalCallback_def Let_def drawTimelineGauge_def min_def)
  let ?b = "?a\<lparr>audioTime := audioTime s + dt\<rparr>"
  have adv: "fire (Advance dt) ?a = ?b" using assms(14) by simp
  obtain E Lv where td: "tryTeardown n ?b = ?b\<lparr>edges := E, live := Lv\<rparr>"
    using tryTeardown_shape [of n ?b] by blast
  let ?b1 = "?b\<lparr>edges := E, live := Lv, fileSourceNode := None, isPlaying := False,
                 btnPlayDisabled := False, btnPauseDisabled := True\<rparr>"
  obtain T I where st: "stopTimeUpdate ?b1 = ?b1\<lparr>timers := T, timeUpdateInterval := I\<rparr>"
    using stopTimeUpdate_shape [of ?b1] by blast
  let ?c = "?b1\<lparr>timers := T, timeUpdateInterval := I, statusEl := StPaused\<rparr>"
  have pause: "fire PauseClick ?b = ?c"
    using assms(3,4) td st by (simp add: pauseFile_def)
  have s1: "run [TimerTick, Advance dt, PauseClick] s = ?c"
    by (simp only: run.simps tick adv pause)
  have c_fields: "\<not> isPlaying ?c" "pausedTime ?c = pausedTime s" "playStartTime ?c = playStartTime s"
    "currentTimelineProgress ?c = ?p" "fileSourceNode ?c = None" "fileBuffer ?c" "audioCtx ?c"
    "nextId ?c = nextId s" "startedAt ?c = startedAt s" "fileDuration ?c = ?d"
    using assms(1,2) by simp_all
  have n3: "gainOut ?c = Some g" "visualAnalyser ?c" "highpass ?c = Some h" "lowpass ?c = Some l"
    using assms(6-9) by simp_all
  have off: "currentTimelineProgress ?c / 100 * fileDuration ?c = e" using assms(10) by simp
  then have off0: "0 \<le> currentTimelineProgress ?c / 100 * fileDuration ?c" using assms(12) by simp
  have play: "isPlaying (playFile ?c) \<and> fileSourceNode (playFile ?c) = Some (Buf (nextId s)) \<and>
      startedAt (playFile ?c) = (Buf (nextId s), e) # startedAt s"
    using playFile_fresh [OF c_fields(6,7,5) n3 off0] by (simp only: off c_fields(8,9))
  show ?thesis
    unfolding Let_def s1 using c_fields(1-4) play by simp
qed

lemma resume_from_last_tick_example:
  "(let s = run [LoadFile (Some 10), PlayClick, Advance 2.9] (initState (Some 0));
        s1 = run [TimerTick, Advance 0.1, PauseClick] s; s2 = fire PlayClick s1
    in isPlaying s \<and> fileSourceNode s = Some (Buf 0) \<and>
       audioTime s - playStartTime s + pausedTime s = 2.9 \<and>
       \<not> isPlaying s1 \<and> pausedTime s1 = pausedTime s \<and> playStartTime s1 = playStartTime s \<and>
       currentTimelineProgress s1 = 2.9 / fileDuration s * 100 \<and>
       isPlaying s2 \<and> fileSourceNode s2 = Some (Buf (nextId s)) \<and>
       startedAt s2 = (Buf (nextId s), 2.9) # startedAt s)"
  using resume_from_last_tick
    [where s = "run [LoadFile (Some 10), PlayClick, Advance 2.9] (initState (Some 0))"
       and n = "Buf 0" and g = 0 and h = 20 and l = 20000 and e = "2.9" and dt = "0.1"]
  by (simp add: model_defs)

text \<open>
  C7. Pausing should record the elapsed time as the paused offset, and the next play
  should resume there. \<open>pauseFile\<close> reads no clock and writes no offset; \<open>playFile\<close>
  starts at the position the timeline gauge shows, and \<open>startTimeUpdate\<close> takes the
  paused offset from \<open>timelineSlider\<close>, a name the script never declares. On a page that
  has such an element, at 0: with a tick at 2.9 s and the pause at elapsed time 3.0 s
  the paused offset stays 0 and playback resumes at 2.9 s with the paused offset set to
  0 again, so one second later, the buffer at 3.9 s, the tick shows 1 s, and the next
  pause and play restart at 1 s. On a page without the element the first play ends in
  the playback error before the timer and the \<open>ended\<close> handler are installed, the gauge
  never moves, and after a pause at 3.0 s playback resumes at 0.
\<close>

theorem resume_offset_misanchored:
  "isPlaying pausedAtThree \<and>
   audioTime pausedAtThree - playStartTime pausedAtThree + pausedTime pausedAtThree = 3 \<and>
   pausedTime (pauseFile pausedAtThree) = 0 \<and>
   startedAt (playFile (pauseFile pausedAtThree)) = [(Buf 1, 2.9), (Buf 0, 0)] \<and>
   pausedTime (playFile (pauseFile pausedAtThree)) = 0 \<and>
   startedAt pausedTwice = [(Buf 1, 2.9), (Buf 0, 0)] \<and> audioTime pausedTwice = 4 \<and>
   playStartTime pausedTwice = 3 \<and> pausedTime pausedTwice = 0 \<and>
   currentTimeText pausedTwice = 1 \<and> currentTimelineProgress pausedTwice = 10 \<and>
   startedAt (fire PlayClick pausedTwice) = [(Buf 2, 1), (Buf 1, 2.9), (Buf 0, 0)] \<and>
   startedAt resumedNoSlider = [(Buf 1, 0), (Buf 0, 0)] \<and> isPlaying resumedNoSlider \<and>
   currentTimelineProgress resumedNoSlider = 0 \<and> timers resumedNoSlider = 0 \<and>
   onended resumedNoSlider = [] \<and> statusEl resumedNoSlider = StPlaybackError"
  by (simp add: model_defs)

section \<open>The output gain\<close>

lemma gainView_update:
  "gainView (s\<lparr>audioCtx := x0\<rparr>) = gainView s"
  "gainView (s\<lparr>mediaStream := x1\<rparr>) = gainView s"
  "gainView (s\<lparr>realtimeSourceNode := x2\<rparr>) = gainView s"
  "gainView (s\<lparr>fileSourceNode := x3\<rparr>) = gainView s"
  "gainView (s\<lparr>inputMode := x4\<rparr>) = gainView s"
  "gainView (s\<lparr>isPlaying := x5\<rparr>) = gainView s"
  "gainView (s\<lparr>isRepeating := x6\<rparr>) = gainView s"
  "gainView (s\<lparr>fileDuration := x7\<rparr>) = gainView s"
  "gainView (s\<lparr>fileBuffer := x8\<rparr>) = gainView s"
  "gainView (s\<lparr>isRealtimeActive := x9\<rparr>) = gainView s"
  "gainView (s\<lparr>peakBins := x10\<rparr>) = gainView s"
  "gainView (s\<lparr>dragging := x11\<rparr>) = gainView s"
  "gainView (s\<lparr>dragStartX := x12\<rparr>) = gainView s"
  "gainView (s\<lparr>dragEndX := x13\<rparr>) = gainView s"
  "gainView (s\<lparr>selectedBandHz := x14\<rparr>) = gainView s"
  "gainView (s\<lparr>selectedBandPixels := x15\<rparr>) = gainView s"
  "gainView (s\<lparr>currentTimelineProgress := x16\<rparr>) = gainView s"
  "gainView (s\<lparr>timeUpdateInterval := x17\<rparr>) = gainView s"
  "gainView (s\<lparr>playStartTime := x18\<rparr>) = gainView s"
  "gainView (s\<lparr>pausedTime := x19\<rparr>) = gainView s"
  "gainView (s\<lparr>statusEl := x20\<rparr>) = gainView s"
  "gainView (s\<lparr>currentTimeText := x21\<rparr>) = gainView s"
  "gainView (s\<lparr>btnPlayDisabled := x22\<rparr>) = gainView s"
  "gainView (s\<lparr>btnPauseDisabled := x23\<rparr>) = gainView s"
  "gainView (s\<lparr>btnStopDisabled := x24\<rparr>) = gainView s"
  "gainView (s\<lparr>audioTime := x25\<rparr>) = gainView s"
  "gainView (s\<lparr>edges := x26\<rparr>) = gainView s"
  "gainView (s\<lparr>live := x27\<rparr>) = gainView s"
  "gainView (s\<lparr>looping := x28\<rparr>) = gainView s"
  "gainView (s\<lparr>startedAt := x29\<rparr>) = gainView s"
  "gainView (s\<lparr>onended := x30\<rparr>) = gainView s"
  "gainView (s\<lparr>nextId := x31\<rparr>) = gainView s"
  "gainView (s\<lparr>timers := x32\<rparr>) = gainView s"
  "gainView (s\<lparr>pendingPlay := x33\<rparr>) = gainView s"
  "gainView (s\<lparr>timelineSlider := x34\<rparr>) = gainView s"
  "gainView (s\<lparr>stopThrows := x35\<rparr>) = gainView s"
  "gainView (s\<lparr>disconnectThrows := x36\<rparr>) = gainView s"
  by (simp_all add: gainView_def)


lemmas inv_defs = gainInvariant_def nodesReady_def outputGain_def gainView_def

lemma inv_view: "gainView s' = gainView s \<Longrightarrow> gainInvariant s' = gainInvariant s"
  by (auto simp add: inv_defs)

lemma stateOf_andThen: "stateOf (andThen c f) = (if threw c then stateOf c else stateOf (f (stateOf c)))"
  by (cases c) simp_all

lemma stateOf_catch: "stateOf (catch c h) = (if threw c then stateOf (h (stateOf c)) else stateOf c)"
  by (cases c) simp_all

lemma threw_andThen: "threw (andThen c f) = (threw c \<or> threw (f (stateOf c)))"
  by (cases c) simp_all

lemma threw_catch: "threw (catch c h) = (threw c \<and> threw (h (stateOf c)))"
  by (cases c) simp_all

lemma view_prims:
  "gainView (tryTeardown n s) = gainView s"
  "gainView (stopTimeUpdate s) = gainView s"
  "gainView (drawTimelineGauge p s) = gainView s"
  "gainView (resetMaxPeaks s) = gainView s"
  "gainView (stateOf (disconnect n s)) = gainView s"
  "gainView (stateOf (stopNode n s)) = gainView s"
  "gainView (stateOf (startNode n off s)) = gainView s"
  "gainView (stateOf (startTimeUpdate s)) = gainView s"
  "gainView (connect a b s) = gainView s"
  "gainView (drawLoop fd s) = gainView s"
  by (simp_all add: gainView_def tryTeardown_def stopTimeUpdate_def drawTimelineGauge_def
      resetMaxPeaks_def disconnect_def stopNode_def startNode_def startTimeUpdate_def connect_def
      drawLoop_def drawSpectrum_def Let_def split: option.split)

lemma stopCurrentInput_view:
  "gainView (stateOf (stopCurrentInput s)) =
     (if threw (stopCurrentInput s) then gainView s else gainView (s\<lparr>currentSourceNode := None\<rparr>))"
proof (cases "inputMode s = ModeRealtime \<and> realtimeSourceNode s \<noteq> None")
  case True
  then show ?thesis
    by (auto simp add: stopCurrentInput_def gainView_def split: option.split)
next
  case False
  show ?thesis
  proof (cases "fileSourceNode s")
    case None
    then show ?thesis using False by (auto simp add: stopCurrentInput_def gainView_def)
  next
    case (Some n)
    then show ?thesis using False
      by (auto simp add: stopCurrentInput_def gainView_def disconnect_def stopNode_def)
  qed
qed

lemma connectAudioPipeline_view:
  "gainView (stateOf (connectAudioPipeline s)) =
     (if currentSourceNode s \<noteq> None \<and> gainOut s \<noteq> None \<and> visualAnalyser s \<and>
         (selectedBandHz s = None \<or> (highpass s \<noteq> None \<and> lowpass s \<noteq> None))
      then gainView (s\<lparr>gainOut := Some (outputGain s)\<rparr>) else gainView s)"
proof (cases "currentSourceNode s")
  case None
  then show ?thesis by (simp add: connectAudioPipeline_def)
next
  case (Some src)
  show ?thesis
  proof (cases "gainOut s = None \<or> \<not> visualAnalyser s")
    case True
    then show ?thesis using Some by (auto simp add: connectAudioPipeline_def)
  next
    case False
    define ns where "ns = (if highpass s = None then [] else [Highpass]) @
                       (if lowpass s = None then [] else [Lowpass]) @ [GainOut, Analyser, src]"
    from disconnectEach_edges [of ns s] obtain es where
      es: "disconnectEach ns s = s\<lparr>edges := es\<rparr>" by blast
    note es' = es [unfolded ns_def]
    show ?thesis
    proof (cases "selectedBandHz s")
      case None
      then show ?thesis using Some False es'
        by (simp add: connectAudioPipeline_def Let_def connect_def gainView_def outputGain_def)
    next
      case band: (Some band)
      show ?thesis
      proof (cases "highpass s")
        case None
        then show ?thesis using Some False es' band
          by (simp add: connectAudioPipeline_def Let_def connect_def gainView_def)
      next
        case hp: (Some h)
        show ?thesis
        proof (cases "lowpass s")
          case None
          then show ?thesis using Some False es' band hp
            by (simp add: connectAudioPipeline_def Let_def connect_def gainView_def)
        next
          case lp: (Some l)
          then show ?thesis using Some False es' band hp
            by (simp add: connectAudioPipeline_def Let_def connect_def gainView_def outputGain_def)
        qed
      qed
    qed
  qed
qed

lemma view_transport:
  "gainView (pauseFile s) = gainView s"
  "gainView (stopFile s) = gainView s"
  "gainView (toggleRepeat s) = gainView s"
  by (simp_all add: pauseFile_def stopFile_def toggleRepeat_def Let_def view_prims gainView_update
      split: option.split)

lemma view_transport2:
  "gainView (intervalCallback s) = gainView s"
  "gainView (onendedHandler s) = gainView s"
  "gainView (seekToPosition p s) = gainView s"
  by (simp_all add: intervalCallback_def onendedHandler_def seekToPosition_def Let_def
      view_prims view_transport gainView_update)

lemma view_misc:
  "gainView (timelineClick p s) = gainView s"
  "gainView (mousedown x b w s) = gainView s"
  "gainView (mousemove x w s) = gainView s"
  by (simp_all add: timelineClick_def mousedown_def mousemove_def Let_def
      view_prims view_transport2 gainView_update)

text \<open>Establishing and keeping the invariant.\<close>

lemma connectAudioPipeline_establishes:
  "nodesReady s \<Longrightarrow> gainInvariant (stateOf (connectAudioPipeline s))"
proof -
  assume r: "nodesReady s"
  have "gainView (stateOf (connectAudioPipeline s)) =
     (if currentSourceNode s \<noteq> None \<and> gainOut s \<noteq> None
      then gainView (s\<lparr>gainOut := Some (outputGain s)\<rparr>) else gainView s)"
    using r by (auto simp add: connectAudioPipeline_view nodesReady_def)
  then show ?thesis using r by (auto simp add: inv_defs split: if_splits)
qed

lemma connectAudioPipeline_inv:
  "gainInvariant s \<Longrightarrow> gainInvariant (stateOf (connectAudioPipeline s))"
  by (rule connectAudioPipeline_establishes) (simp add: gainInvariant_def)

lemma stopCurrentInput_inv:
  "gainInvariant s \<Longrightarrow> gainInvariant (stateOf (stopCurrentInput s))"
  using stopCurrentInput_view [of s] by (auto simp add: inv_defs split: if_splits)

lemma stopCurrentInput_ready:
  "nodesReady (stateOf (stopCurrentInput s)) = nodesReady s"
  using stopCurrentInput_view [of s] by (auto simp add: inv_defs split: if_splits)

lemma stopCurrentInput_cleared:
  "\<not> threw (stopCurrentInput s) \<Longrightarrow> currentSourceNode (stateOf (stopCurrentInput s)) = None"
  using stopCurrentInput_view [of s] by (simp add: gainView_def)

lemma gainInvariant_update:
  "gainInvariant (s\<lparr>audioCtx := x0\<rparr>) = gainInvariant s"
  "gainInvariant (s\<lparr>mediaStream := x1\<rparr>) = gainInvariant s"
  "gainInvariant (s\<lparr>realtimeSourceNode := x2\<rparr>) = gainInvariant s"
  "gainInvariant (s\<lparr>fileSourceNode := x3\<rparr>) = gainInvariant s"
  "gainInvariant (s\<lparr>inputMode := x4\<rparr>) = gainInvariant s"
  "gainInvariant (s\<lparr>isPlaying := x5\<rparr>) = gainInvariant s"
  "gainInvariant (s\<lparr>isRepeating := x6\<rparr>) = gainInvariant s"
  "gainInvariant (s\<lparr>fileDuration := x7\<rparr>) = gainInvariant s"
  "gainInvariant (s\<lparr>fileBuffer := x8\<rparr>) = gainInvariant s"
  "gainInvariant (s\<lparr>isRealtimeActive := x9\<rparr>) = gainInvariant s"
  "gainInvariant (s\<lparr>peakBins := x10\<rparr>) = gainInvariant s"
  "gainInvariant (s\<lparr>dragging := x11\<rparr>) = gainInvariant s"
  "gainInvariant (s\<lparr>dragStartX := x12\<rparr>) = gainInvariant s"
  "gainInvariant (s\<lparr>dragEndX := x13\<rparr>) = gainInvariant s"
  "gainInvariant (s\<lparr>selectedBandHz := x14\<rparr>) = gainInvariant s"
  "gainInvariant (s\<lparr>selectedBandPixels := x15\<rparr>) = gainInvariant s"
  "gainInvariant (s\<lparr>currentTimelineProgress := x16\<rparr>) = gainInvariant s"
  "gainInvariant (s\<lparr>timeUpdateInterval := x17\<rparr>) = gainInvariant s"
  "gainInvariant (s\<lparr>playStartTime := x18\<rparr>) = gainInvariant s"
  "gainInvariant (s\<lparr>pausedTime := x19\<rparr>) = gainInvariant s"
  "gainInvariant (s\<lparr>statusEl := x20\<rparr>) = gainInvariant s"
  "gainInvariant (s\<lparr>currentTimeText := x21\<rparr>) = gainInvariant s"
  "gainInvariant (s\<lparr>btnPlayDisabled := x22\<rparr>) = gainInvariant s"
  "gainInvariant (s\<lparr>btnPauseDisabled := x23\<rparr>) = gainInvariant s"
  "gainInvariant (s\<lparr>btnStopDisabled := x24\<rparr>) = gainInvariant s"
  "gainInvariant (s\<lparr>audioTime := x25\<rparr>) = gainInvariant s"
  "gainInvariant (s\<lparr>edges := x26\<rparr>) = gainInvariant s"
  "gainInvariant (s\<lparr>live := x27\<rparr>) = gainInvariant s"
  "gainInvariant (s\<lparr>looping := x28\<rparr>) = gainInvariant s"
  "gainInvariant (s\<lparr>startedAt := x29\<rparr>) = gainInvariant s"
  "gainInvariant (s\<lparr>onended := x30\<rparr>) = gainInvariant s"
  "gainInvariant (s\<lparr>nextId := x31\<rparr>) = gainInvariant s"
  "gainInvariant (s\<lparr>timers := x32\<rparr>) = gainInvariant s"
  "gainInvariant (s\<lparr>pendingPlay := x33\<rparr>) = gainInvariant s"
  "gainInvariant (s\<lparr>timelineSlider := x34\<rparr>) = gainInvariant s"
  "gainInvariant (s\<lparr>stopThrows := x35\<rparr>) = gainInvariant s"
  "gainInvariant (s\<lparr>disconnectThrows := x36\<rparr>) = gainInvariant s"
  by (simp_all add: gainInvariant_def nodesReady_def outputGain_def)

lemma nodesReady_update:
  "nodesReady (s\<lparr>audioCtx := x0\<rparr>) = nodesReady s"
  "nodesReady (s\<lparr>mediaStream := x1\<rparr>) = nodesReady s"
  "nodesReady (s\<lparr>realtimeSourceNode := x2\<rparr>) = nodesReady s"
  "nodesReady (s\<lparr>fileSourceNode := x3\<rparr>) = nodesReady s"
  "nodesReady (s\<lparr>inputMode := x4\<rparr>) = nodesReady s"
  "nodesReady (s\<lparr>isPlaying := x5\<rparr>) = nodesReady s"
  "nodesReady (s\<lparr>isRepeating := x6\<rparr>) = nodesReady s"
  "nodesReady (s\<lparr>fileDuration := x7\<rparr>) = nodesReady s"
  "nodesReady (s\<lparr>fileBuffer := x8\<rparr>) = nodesReady s"
  "nodesReady (s\<lparr>isRealtimeActive := x9\<rparr>) = nodesReady s"
  "nodesReady (s\<lparr>peakBins := x10\<rparr>) = nodesReady s"
  "nodesReady (s\<lparr>dragging := x11\<rparr>) = nodesReady s"
  "nodesReady (s\<lparr>dragStartX := x12\<rparr>) = nodesReady s"
  "nodesReady (s\<lparr>dragEndX := x13\<rparr>) = nodesReady s"
  "nodesReady (s\<lparr>selectedBandHz := x14\<rparr>) = nodesReady s"
  "nodesReady (s\<lparr>selectedBandPixels := x15\<rparr>) = nodesReady s"
  "nodesReady (s\<lparr>currentTimelineProgress := x16\<rparr>) = nodesReady s"
  "nodesReady (s\<lparr>timeUpdateInterval := x17\<rparr>) = nodesReady s"
  "nodesReady (s\<lparr>playStartTime := x18\<rparr>) = nodesReady s"
  "nodesReady (s\<lparr>pausedTime := x19\<rparr>) = nodesReady s"
  "nodesReady (s\<lparr>statusEl := x20\<rparr>) = nodesReady s"
  "nodesReady (s\<lparr>currentTimeText := x21\<rparr>) = nodesReady s"
  "nodesReady (s\<lparr>btnPlayDisabled := x22\<rparr>) = nodesReady s"
  "nodesReady (s\<lparr>btnPauseDisabled := x23\<rparr>) = nodesReady s"
  "nodesReady (s\<lparr>btnStopDisabled := x24\<rparr>) = nodesReady s"
  "nodesReady (s\<lparr>audioTime := x25\<rparr>) = nodesReady s"
  "nodesReady (s\<lparr>edges := x26\<rparr>) = nodesReady s"
  "nodesReady (s\<lparr>live := x27\<rparr>) = nodesReady s"
  "nodesReady (s\<lparr>looping := x28\<rparr>) = nodesReady s"
  "nodesReady (s\<lparr>startedAt := x29\<rparr>) = nodesReady s"
  "nodesReady (s\<lparr>onended := x30\<rparr>) = nodesReady s"
  "nodesReady (s\<lparr>nextId := x31\<rparr>) = nodesReady s"
  "nodesReady (s\<lparr>timers := x32\<rparr>) = nodesReady s"
  "nodesReady (s\<lparr>pendingPlay := x33\<rparr>) = nodesReady s"
  "nodesReady (s\<lparr>timelineSlider := x34\<rparr>) = nodesReady s"
  "nodesReady (s\<lparr>stopThrows := x35\<rparr>) = nodesReady s"
  "nodesReady (s\<lparr>disconnectThrows := x36\<rparr>) = nodesReady s"
  "nodesReady (s\<lparr>currentSourceNode := c\<rparr>) = nodesReady s"
  "nodesReady (s\<lparr>outputEnabled := b\<rparr>) = nodesReady s"
  "nodesReady (s\<lparr>volumeLevel := v\<rparr>) = nodesReady s"
  by (simp_all add: nodesReady_def)


lemma gainInvariant_ready: "gainInvariant s \<Longrightarrow> nodesReady s"
  by (simp add: gainInvariant_def)

lemma sync_establishes:
  "nodesReady s \<Longrightarrow>
   gainInvariant (case gainOut s of None \<Rightarrow> s | Some g \<Rightarrow> s\<lparr>gainOut := Some (outputGain s)\<rparr>)"
  by (auto simp add: inv_defs split: option.split)

lemma not_threw: "\<not> threw c \<Longrightarrow> c = Returned (stateOf c)"
  by (cases c) simp_all

lemma initializeAudioNodes_ready: "nodesReady (initializeAudioNodes s)"
  by (simp add: initializeAudioNodes_def nodesReady_def Let_def)

lemma initializeAudioNodes_inv: "gainInvariant s \<Longrightarrow> gainInvariant (initializeAudioNodes s)"
  by (auto simp add: initializeAudioNodes_def inv_defs Let_def)

lemma stopAudio_inv: "gainInvariant s \<Longrightarrow> gainInvariant (stateOf (stopAudio s))"
  by (simp add: stopAudio_def stateOf_andThen stopCurrentInput_inv gainInvariant_update)

lemma switchToRealtimeMode_inv:
  assumes "gainInvariant s"
  shows "gainInvariant (stateOf (switchToRealtimeMode s))"
proof -
  define s1 where "s1 = (if isPlaying s \<and> inputMode s = ModeFile then
                  stopTimeUpdate
                    ((case fileSourceNode s of
                        None \<Rightarrow> s
                      | Some n \<Rightarrow> (tryTeardown n s)\<lparr>fileSourceNode := None\<rparr>)\<lparr>isPlaying := False\<rparr>)
                else s)"
  have "gainView s1 = gainView s"
    by (simp add: s1_def view_prims gainView_update split: option.split)
  from inv_view [OF this] have i1: "gainInvariant s1" using assms by simp
  let ?K2 = "\<lambda>s3. Returned (case gainOut s3 of None \<Rightarrow> s3 | Some _ \<Rightarrow> s3\<lparr>gainOut := Some (outputGain s3)\<rparr>)"
  have eq: "switchToRealtimeMode s =
      andThen (if inputMode s1 = ModeRealtime then Returned s1
               else andThen (stopCurrentInput s1)
                      (\<lambda>s2. Returned (s2\<lparr>inputMode := ModeRealtime,
                                          currentSourceNode := realtimeSourceNode s2\<rparr>))) ?K2"
    unfolding switchToRealtimeMode_def s1_def Let_def by (rule refl)
  show ?thesis
  proof (cases "inputMode s1 = ModeRealtime")
    case True
    have "nodesReady s1" using i1 by (rule gainInvariant_ready)
    then have "gainInvariant (case gainOut s1 of None \<Rightarrow> s1
                 | Some _ \<Rightarrow> s1\<lparr>gainOut := Some (outputGain s1)\<rparr>)"
      by (auto simp add: inv_defs split: option.split)
    then show ?thesis using True unfolding eq by simp
  next
    case False
    show ?thesis
    proof (cases "threw (stopCurrentInput s1)")
      case True
      then show ?thesis using False i1
        unfolding eq by (simp add: stateOf_andThen threw_andThen stopCurrentInput_inv)
    next
      case nt: False
      define X where "X = stateOf (stopCurrentInput s1)"
      have r: "stopCurrentInput s1 = Returned X" unfolding X_def using nt by (rule not_threw)
      have "nodesReady X"
        using i1 by (simp add: X_def stopCurrentInput_ready gainInvariant_ready)
      then show ?thesis using False
        unfolding eq by (auto simp add: r inv_defs split: option.split)
    qed
  qed
qed

lemma switchToFileMode_inv:
  assumes "gainInvariant s"
  shows "gainInvariant (stateOf (switchToFileMode s))"
proof -
  define c0 where "c0 = (if isRealtimeActive s \<and> inputMode s = ModeRealtime then stopAudio s else Returned s)"
  have i0: "gainInvariant (stateOf c0)" using assms by (simp add: c0_def stopAudio_inv)
  let ?K = "\<lambda>s1.
          if fileBuffer s1 then
            andThen
              (if inputMode s1 = ModeFile then Returned s1
               else andThen (stopCurrentInput s1)
                      (\<lambda>s2. Returned (s2\<lparr>inputMode := ModeFile,
                                           currentSourceNode := fileSourceNode s2\<rparr>)))
              (\<lambda>s3.
                 (let s4 = s3\<lparr>btnPlayDisabled := False, btnPauseDisabled := True,
                              btnStopDisabled := True\<rparr>
                  in Returned
                       (case gainOut s4 of
                          None \<Rightarrow> s4
                        | Some _ \<Rightarrow> s4\<lparr>gainOut := Some (outputGain s4)\<rparr>)))
          else
            Returned (s1\<lparr>btnPlayDisabled := True, btnPauseDisabled := True,
                          btnStopDisabled := True\<rparr>)"
  have eq: "switchToFileMode s = andThen c0 ?K"
    unfolding switchToFileMode_def c0_def by (rule refl)
  have k: "gainInvariant (stateOf (?K s1))" if i1: "gainInvariant s1" for s1
  proof (cases "fileBuffer s1")
    case False
    then show ?thesis using i1 by (simp add: gainInvariant_update)
  next
    case fb: True
    show ?thesis
    proof (cases "inputMode s1 = ModeFile")
      case True
      have "nodesReady s1" using i1 by (rule gainInvariant_ready)
      then show ?thesis using fb True
        by (auto simp add: Let_def inv_defs split: option.split)
    next
      case False
      show ?thesis
      proof (cases "threw (stopCurrentInput s1)")
        case True
        then show ?thesis using False fb i1
          by (simp add: stateOf_andThen threw_andThen stopCurrentInput_inv)
      next
        case nt: False
        define X where "X = stateOf (stopCurrentInput s1)"
        have r: "stopCurrentInput s1 = Returned X" unfolding X_def using nt by (rule not_threw)
        have "nodesReady X"
          using i1 by (simp add: X_def stopCurrentInput_ready gainInvariant_ready)
        then show ?thesis using False fb
          by (auto simp add: r Let_def inv_defs split: option.split)
      qed
    qed
  qed
  show ?thesis
  proof (cases c0)
    case (Returned s1)
    then have "gainInvariant s1" using i0 by simp
    from k [OF this] show ?thesis unfolding eq Returned andThen.simps .
  next
    case (Threw s1)
    then show ?thesis using i0 unfolding eq by simp
  qed
qed

lemma andThen_post:
  "P (stateOf c) \<Longrightarrow> (\<And>s'. c = Returned s' \<Longrightarrow> P s' \<Longrightarrow> P (stateOf (f s'))) \<Longrightarrow>
   P (stateOf (andThen c f))"
  by (cases c) simp_all

lemma catch_post:
  "P (stateOf c) \<Longrightarrow> (\<And>s'. c = Threw s' \<Longrightarrow> P s' \<Longrightarrow> P (stateOf (h s'))) \<Longrightarrow>
   P (stateOf (catch c h))"
  by (cases c) simp_all

lemmas inv_prims = view_prims [THEN inv_view]
lemmas inv_transport = view_transport [THEN inv_view] view_transport2 [THEN inv_view]
  view_misc [THEN inv_view]

lemma startAudio_inv:
  assumes "gainInvariant s"
  shows "gainInvariant (stateOf (startAudio granted s))"
  unfolding startAudio_def
proof (rule catch_post)
  show "gainInvariant (stateOf (stopCurrentInput (s'\<lparr>statusEl := StStartError\<rparr>)))"
    if "gainInvariant s'" for s'
    using that by (simp add: stopCurrentInput_inv gainInvariant_update)
next
  show "gainInvariant (stateOf (andThen (stopCurrentInput s)
          (\<lambda>s1.
             if granted then
               (let k = nextId s1;
                    s2 = s1\<lparr>mediaStream := Some k, nextId := Suc k, live := Mic k # live s1\<rparr>;
                    s3 = initializeAudioNodes (s2\<lparr>audioCtx := True\<rparr>);
                    s4 = s3\<lparr>realtimeSourceNode := Some (Mic k)\<rparr>;
                    s5 = s4\<lparr>currentSourceNode := realtimeSourceNode s4, inputMode := ModeRealtime\<rparr>
                in andThen (connectAudioPipeline s5)
                     (\<lambda>s6. andThen (switchToRealtimeMode s6)
                        (\<lambda>s7. Returned (s7\<lparr>isRealtimeActive := True, statusEl := StRealtime\<rparr>))))
             else Threw s1)))"
  proof (rule andThen_post)
    show "gainInvariant (stateOf (stopCurrentInput s))" using assms by (rule stopCurrentInput_inv)
  next
    fix s1 assume i1: "gainInvariant s1"
    show "gainInvariant (stateOf (if granted then
               (let k = nextId s1;
                    s2 = s1\<lparr>mediaStream := Some k, nextId := Suc k, live := Mic k # live s1\<rparr>;
                    s3 = initializeAudioNodes (s2\<lparr>audioCtx := True\<rparr>);
                    s4 = s3\<lparr>realtimeSourceNode := Some (Mic k)\<rparr>;
                    s5 = s4\<lparr>currentSourceNode := realtimeSourceNode s4, inputMode := ModeRealtime\<rparr>
                in andThen (connectAudioPipeline s5)
                     (\<lambda>s6. andThen (switchToRealtimeMode s6)
                        (\<lambda>s7. Returned (s7\<lparr>isRealtimeActive := True, statusEl := StRealtime\<rparr>))))
             else Threw s1))"
    proof (cases granted)
      case False
      then show ?thesis using i1 by simp
    next
      case True
      define s3 where "s3 = initializeAudioNodes
          (s1\<lparr>mediaStream := Some (nextId s1), nextId := Suc (nextId s1),
               live := Mic (nextId s1) # live s1, audioCtx := True\<rparr>)"
      define s5 where "s5 = s3\<lparr>realtimeSourceNode := Some (Mic (nextId s1)),
          currentSourceNode := Some (Mic (nextId s1)), inputMode := ModeRealtime\<rparr>"
      have r5: "nodesReady s5"
        by (simp add: s5_def s3_def nodesReady_update initializeAudioNodes_ready)
      have "gainInvariant (stateOf (andThen (connectAudioPipeline s5)
                     (\<lambda>s6. andThen (switchToRealtimeMode s6)
                        (\<lambda>s7. Returned (s7\<lparr>isRealtimeActive := True, statusEl := StRealtime\<rparr>)))))"
      proof (rule andThen_post)
        show "gainInvariant (stateOf (connectAudioPipeline s5))"
          using r5 by (rule connectAudioPipeline_establishes)
      next
        fix s6 assume i6: "gainInvariant s6"
        show "gainInvariant (stateOf (andThen (switchToRealtimeMode s6)
                        (\<lambda>s7. Returned (s7\<lparr>isRealtimeActive := True, statusEl := StRealtime\<rparr>))))"
        proof (rule andThen_post)
          show "gainInvariant (stateOf (switchToRealtimeMode s6))"
            using i6 by (rule switchToRealtimeMode_inv)
        next
          fix s7 assume "gainInvariant s7"
          then show "gainInvariant (stateOf (Returned (s7\<lparr>isRealtimeActive := True, statusEl := StRealtime\<rparr>)))"
            by (simp add: gainInvariant_update)
        qed
      qed
      then show ?thesis using True by (simp add: Let_def s5_def s3_def)
    qed
  qed
qed

lemma loadFile_inv:
  assumes "gainInvariant s"
  shows "gainInvariant (loadFile decoded s)"
  unfolding loadFile_def
proof (rule catch_post)
  show "gainInvariant (stateOf (Returned (s'\<lparr>statusEl := StLoadError\<rparr>)))" if "gainInvariant s'" for s'
    using that by (simp add: gainInvariant_update)
next
  show "gainInvariant (stateOf (andThen (stopCurrentInput (s\<lparr>statusEl := StLoading\<rparr>))
             (\<lambda>s1.
                (let s2 = s1\<lparr>audioCtx := True\<rparr>
                 in case decoded of
                      None \<Rightarrow> Threw s2
                    | Some d \<Rightarrow>
                        andThen
                          (switchToFileMode
                             (initializeAudioNodes (s2\<lparr>fileBuffer := True, fileDuration := d\<rparr>)))
                          (\<lambda>s3. Returned
                             ((drawTimelineGauge 0 (s3\<lparr>currentTimeText := 0\<rparr>))
                                \<lparr>btnPlayDisabled := False, btnPauseDisabled := True,
                                 btnStopDisabled := True, statusEl := StFileLoaded\<rparr>))))))"
  proof (rule andThen_post)
    show "gainInvariant (stateOf (stopCurrentInput (s\<lparr>statusEl := StLoading\<rparr>)))"
      using assms by (simp add: stopCurrentInput_inv gainInvariant_update)
  next
    fix s1 assume i1: "gainInvariant s1"
    show "gainInvariant (stateOf (let s2 = s1\<lparr>audioCtx := True\<rparr>
                 in case decoded of
                      None \<Rightarrow> Threw s2
                    | Some d \<Rightarrow>
                        andThen
                          (switchToFileMode
                             (initializeAudioNodes (s2\<lparr>fileBuffer := True, fileDuration := d\<rparr>)))
                          (\<lambda>s3. Returned
                             ((drawTimelineGauge 0 (s3\<lparr>currentTimeText := 0\<rparr>))
                                \<lparr>btnPlayDisabled := False, btnPauseDisabled := True,
                                 btnStopDisabled := True, statusEl := StFileLoaded\<rparr>))))"
    proof (cases decoded)
      case None
      then show ?thesis using i1 by (simp add: gainInvariant_update)
    next
      case (Some d)
      have "gainInvariant (stateOf (andThen
                          (switchToFileMode
                             (initializeAudioNodes (s1\<lparr>audioCtx := True, fileBuffer := True, fileDuration := d\<rparr>)))
                          (\<lambda>s3. Returned
                             ((drawTimelineGauge 0 (s3\<lparr>currentTimeText := 0\<rparr>))
                                \<lparr>btnPlayDisabled := False, btnPauseDisabled := True,
                                 btnStopDisabled := True, statusEl := StFileLoaded\<rparr>))))"
      proof (rule andThen_post)
        show "gainInvariant (stateOf (switchToFileMode
                (initializeAudioNodes (s1\<lparr>audioCtx := True, fileBuffer := True, fileDuration := d\<rparr>))))"
          using i1 by (intro switchToFileMode_inv initializeAudioNodes_inv) (simp add: gainInvariant_update)
      next
        fix s3 assume "gainInvariant s3"
        then show "gainInvariant (stateOf (Returned
                             ((drawTimelineGauge 0 (s3\<lparr>currentTimeText := 0\<rparr>))
                                \<lparr>btnPlayDisabled := False, btnPauseDisabled := True,
                                 btnStopDisabled := True, statusEl := StFileLoaded\<rparr>)))"
          by (simp add: gainInvariant_update inv_prims)
      qed
      then show ?thesis using Some by (simp add: Let_def)
    qed
  qed
qed

lemma playFile_inv:
  assumes "gainInvariant s"
  shows "gainInvariant (playFile s)"
proof (cases "fileBuffer s \<and> audioCtx s")
  case False
  then show ?thesis using assms by (auto simp add: playFile_def)
next
  case True
  define s1 where "s1 = (case fileSourceNode s of
                          None \<Rightarrow> s
                        | Some old \<Rightarrow> (tryTeardown old s)\<lparr>fileSourceNode := None\<rparr>)"
  define n where "n = Buf (nextId s1)"
  define s3 where "s3 = s1\<lparr>nextId := Suc (nextId s1), fileSourceNode := Some n,
                           looping := (if isRepeating s1 then n # looping s1 else looping s1),
                           currentSourceNode := Some n\<rparr>"
  let ?K = "\<lambda>s4. andThen
                      (startNode n ((currentTimelineProgress s4 / 100) * fileDuration s4) s4)
                      (\<lambda>s5. andThen
                         (startTimeUpdate
                            (s5\<lparr>isPlaying := True, btnPlayDisabled := True,
                                 btnPauseDisabled := False, btnStopDisabled := False\<rparr>))
                         (\<lambda>s6. Returned (s6\<lparr>onended := n # onended s6, statusEl := StPlaying\<rparr>)))"
  let ?H = "\<lambda>s'. Returned (s'\<lparr>statusEl := StPlaybackError\<rparr>)"
  have eq: "playFile s = stateOf (catch (andThen (connectAudioPipeline s3) ?K) ?H)"
    using True by (simp add: playFile_def Let_def s3_def n_def s1_def)
  have "gainView s1 = gainView s"
    by (simp add: s1_def view_prims gainView_update split: option.split)
  from inv_view [OF this] have "gainInvariant s1" using assms by simp
  then have r3: "nodesReady s3"
    by (simp add: s3_def nodesReady_update gainInvariant_ready)
  show ?thesis
    unfolding eq
  proof (rule catch_post)
    show "gainInvariant (stateOf (?H s'))" if "gainInvariant s'" for s'
      using that by (simp add: gainInvariant_update)
  next
    show "gainInvariant (stateOf (andThen (connectAudioPipeline s3) ?K))"
    proof (rule andThen_post)
      show "gainInvariant (stateOf (connectAudioPipeline s3))"
        using r3 by (rule connectAudioPipeline_establishes)
    next
      fix s4 assume i4: "gainInvariant s4"
      show "gainInvariant (stateOf (?K s4))"
      proof (rule andThen_post)
        show "gainInvariant (stateOf (startNode n (currentTimelineProgress s4 / 100 * fileDuration s4) s4))"
          using i4 by (simp add: inv_prims)
      next
        fix s5 assume i5: "gainInvariant s5"
        show "gainInvariant (stateOf (andThen
                         (startTimeUpdate
                            (s5\<lparr>isPlaying := True, btnPlayDisabled := True,
                                 btnPauseDisabled := False, btnStopDisabled := False\<rparr>))
                         (\<lambda>s6. Returned (s6\<lparr>onended := n # onended s6, statusEl := StPlaying\<rparr>))))"
        proof (rule andThen_post)
          show "gainInvariant (stateOf (startTimeUpdate
                            (s5\<lparr>isPlaying := True, btnPlayDisabled := True,
                                 btnPauseDisabled := False, btnStopDisabled := False\<rparr>)))"
            using i5 by (simp add: inv_prims gainInvariant_update)
        next
          fix s6 assume "gainInvariant s6"
          then show "gainInvariant (stateOf (Returned (s6\<lparr>onended := n # onended s6, statusEl := StPlaying\<rparr>)))"
            by (simp add: gainInvariant_update)
        qed
      qed
    qed
  qed
qed

lemma clearBand_inv:
  assumes "gainInvariant s"
  shows "gainInvariant (stateOf (clearBand s))"
  unfolding clearBand_def connectGraph_def
proof (rule andThen_post)
  show "gainInvariant (stateOf (connectAudioPipeline
          (s\<lparr>selectedBandHz := None, selectedBandPixels := None, dragStartX := None, dragEndX := None\<rparr>)))"
    using assms by (intro connectAudioPipeline_inv) (simp add: gainInvariant_update)
next
  fix s1 assume "gainInvariant s1"
  then show "gainInvariant (stateOf (Returned (s1\<lparr>statusEl := StBandCleared\<rparr>)))"
    by (simp add: gainInvariant_update)
qed

lemma mouseup_unfold:
  assumes "dragging s" "dragStartX s = Some a" "dragEndX s = Some b"
  shows "mouseup rectWidth s =
      andThen (if 0 \<le> min a b \<and> max a b \<le> rectWidth - 10 \<and> 5 \<le> max a b - min a b
               then connectAudioPipeline
                      (s\<lparr>dragging := False, selectedBandPixels := Some (min a b, max a b),
                         selectedBandHz := Some (canvasXToHz (min a b) (rectWidth - 10),
                                                 canvasXToHz (max a b) (rectWidth - 10)),
                         statusEl := StBandSelected (canvasXToHz (min a b) (rectWidth - 10))
                                                    (canvasXToHz (max a b) (rectWidth - 10))\<rparr>)
               else andThen (connectAudioPipeline
                               (s\<lparr>dragging := False, selectedBandHz := None,
                                  selectedBandPixels := None, dragStartX := None, dragEndX := None\<rparr>))
                      (\<lambda>s1. Returned (s1\<lparr>statusEl := StBandCleared\<rparr>)))
        (\<lambda>s2. Returned (s2\<lparr>dragStartX := None, dragEndX := None\<rparr>))"
  using assms by (simp add: mouseup_def Let_def clearBand_def connectGraph_def)

lemma mouseup_inv:
  assumes "gainInvariant s"
  shows "gainInvariant (stateOf (mouseup w s))"
proof (cases "dragging s")
  case False
  then show ?thesis using assms by (simp add: mouseup_def)
next
  case True
  show ?thesis
  proof (cases "dragStartX s")
    case None
    then show ?thesis using assms True by (simp add: mouseup_def gainInvariant_update)
  next
    case a: (Some a)
    show ?thesis
    proof (cases "dragEndX s")
      case None
      then show ?thesis using assms True a by (simp add: mouseup_def gainInvariant_update)
    next
      case b: (Some b)
      let ?ok = "0 \<le> min a b \<and> max a b \<le> w - 10 \<and> 5 \<le> max a b - min a b"
      let ?K = "\<lambda>s2. Returned (s2\<lparr>dragStartX := None, dragEndX := None\<rparr>)"
      have k: "gainInvariant (stateOf (?K s2))" if "gainInvariant s2" for s2
        using that by (simp add: gainInvariant_update)
      note m = mouseup_unfold [OF True a b, of w]
      show ?thesis
      proof (cases ?ok)
        case ok: True
        show ?thesis
          unfolding m if_P [OF ok]
        proof (rule andThen_post)
          show "gainInvariant (stateOf (connectAudioPipeline
                      (s\<lparr>dragging := False, selectedBandPixels := Some (min a b, max a b),
                         selectedBandHz := Some (canvasXToHz (min a b) (w - 10),
                                                 canvasXToHz (max a b) (w - 10)),
                         statusEl := StBandSelected (canvasXToHz (min a b) (w - 10))
                                                    (canvasXToHz (max a b) (w - 10))\<rparr>)))"
            using assms by (intro connectAudioPipeline_inv) (simp add: gainInvariant_update)
        qed (rule k)
      next
        case no: False
        show ?thesis
          unfolding m if_not_P [OF no]
        proof (rule andThen_post)
          show "gainInvariant (stateOf (andThen (connectAudioPipeline
                               (s\<lparr>dragging := False, selectedBandHz := None,
                                  selectedBandPixels := None, dragStartX := None, dragEndX := None\<rparr>))
                      (\<lambda>s1. Returned (s1\<lparr>statusEl := StBandCleared\<rparr>))))"
          proof (rule andThen_post)
            show "gainInvariant (stateOf (connectAudioPipeline
                               (s\<lparr>dragging := False, selectedBandHz := None,
                                  selectedBandPixels := None, dragStartX := None, dragEndX := None\<rparr>)))"
              using assms by (intro connectAudioPipeline_inv) (simp add: gainInvariant_update)
          next
            fix s1 assume "gainInvariant s1"
            then show "gainInvariant (stateOf (Returned (s1\<lparr>statusEl := StBandCleared\<rparr>)))"
              by (simp add: gainInvariant_update)
          qed
        qed (rule k)
      qed
    qed
  qed
qed

lemma output_inv:
  "gainInvariant s \<Longrightarrow> gainInvariant (toggleOutput s)"
  "gainInvariant s \<Longrightarrow> gainInvariant (updateVolume p s)"
  by (auto simp add: toggleOutput_def updateVolume_def updateCurrentVolume_def inv_defs)

lemma fire_inv: "gainInvariant s \<Longrightarrow> gainInvariant (fire e s)"
proof (cases e)
  case (StartAudio granted)
  assume "gainInvariant s"
  then show ?thesis using StartAudio by (simp add: startAudio_inv)
next
  case (SourceEnded n)
  assume "gainInvariant s"
  then show ?thesis using SourceEnded
    by (simp add: Let_def inv_transport gainInvariant_update)
qed (simp_all add: stopAudio_inv switchToRealtimeMode_inv switchToFileMode_inv loadFile_inv
      playFile_inv clearBand_inv mouseup_inv output_inv inv_transport inv_prims gainInvariant_update)

lemma run_inv: "gainInvariant s \<Longrightarrow> gainInvariant (run evs s)"
  by (induction evs arbitrary: s) (simp_all add: fire_inv)

lemma init_inv: "gainInvariant ((initState slider)\<lparr>stopThrows := st, disconnectThrows := dt\<rparr>)"
  by (simp add: initState_def inv_defs)

text \<open>
  After any sequence of events, whenever the gain node exists and a current source node
  is set, the gain is \<open>outputEnabled ? volumeLevel : 0\<close>, whatever the flag, the level and
  the input mode are; in such a state the output toggle and a volume change set the gain
  at once and leave every connection as it is.
\<close>

lemma gain_follows_output_setting:
  assumes "s = run evs ((initState slider)\<lparr>stopThrows := st, disconnectThrows := dt\<rparr>)"
    and "gainOut s = Some g" "currentSourceNode s = Some src"
  shows "g = (if outputEnabled s then volumeLevel s else 0) \<and>
         gainOut (toggleOutput s) = Some (if outputEnabled s then 0 else volumeLevel s) \<and>
         edges (toggleOutput s) = edges s \<and>
         gainOut (updateVolume p s) = Some (if outputEnabled s then p / 100 else 0) \<and>
         edges (updateVolume p s) = edges s"
proof -
  have "gainInvariant s" unfolding assms(1) by (rule run_inv) (rule init_inv)
  then have "g = (if outputEnabled s then volumeLevel s else 0)"
    using assms(2,3) by (simp add: inv_defs)
  then show ?thesis using assms(2,3)
    by (simp add: toggleOutput_def updateVolume_def updateCurrentVolume_def outputGain_def)
qed

lemma gain_follows_output_setting_example:
  "(let s = run [StartAudio True, OutputClick, VolumeSet 200]
              ((initState (Some 0))\<lparr>stopThrows := [], disconnectThrows := []\<rparr>)
    in gainOut s = Some 2 \<and> currentSourceNode s = Some (Mic 0) \<and>
       2 = (if outputEnabled s then volumeLevel s else 0) \<and>
       gainOut (toggleOutput s) = Some (if outputEnabled s then 0 else volumeLevel s) \<and>
       edges (toggleOutput s) = edges s \<and>
       gainOut (updateVolume 300 s) = Some (if outputEnabled s then 300 / 100 else 0) \<and>
       edges (updateVolume 300 s) = edges s)"
  using gain_follows_output_setting
    [where s = "run [StartAudio True, OutputClick, VolumeSet 200]
              ((initState (Some 0))\<lparr>stopThrows := [], disconnectThrows := []\<rparr>)"
       and evs = "[StartAudio True, OutputClick, VolumeSet 200]" and slider = "Some 0"
       and st = "[]" and dt = "[]" and g = 2 and src = "Mic 0" and p = 300]
  by (simp add: model_defs)

text \<open>
  C2. The gain should be \<open>enabled ? level : 0\<close> at every moment, and the output toggle and
  the level should take effect at once. \<open>updateCurrentVolume\<close>, which is to apply the
  volume to the active source at once, writes the gain only while a current source is
  set, and \<open>stopCurrentInput\<close> forgets the current source without stopping a buffer
  source unless the mode is file. After a file load, a failed load (which leaves the mode
  at none), Play and a click on the realtime mode button, the buffer source keeps playing
  into the destination with no current source set. Switching the output on then leaves
  the gain at 0; and with the output switched on before Play, switching it off and
  setting the level to 0 leaves the gain at 1.
\<close>

theorem gain_stale_while_orphan_plays:
  "outputEnabled orphanToggled \<and> volumeLevel orphanToggled = 1 \<and>
   gainOut orphanToggled = Some 0 \<and> currentSourceNode orphanToggled = None \<and>
   live orphanToggled = [Buf 0] \<and>
   edges orphanToggled = [(Buf 0, GainOut), (GainOut, Destination), (Buf 0, Analyser)] \<and>
   \<not> outputEnabled orphanMuted \<and> volumeLevel orphanMuted = 0 \<and>
   gainOut orphanMuted = Some 1 \<and> currentSourceNode orphanMuted = None \<and>
   live orphanMuted = [Buf 0] \<and>
   edges orphanMuted = [(Buf 0, GainOut), (GainOut, Destination), (Buf 0, Analyser)]"
  by (simp add: model_defs)

end
